theory Spec2Isabelle
  imports Complex_Main
begin

chapter \<open>The model\<close>

section \<open>The balance calculator (workshop\_model.py)\<close>

text \<open>
  The three dataclasses of \<^verbatim>\<open>workshop_model.py\<close> are records with the source's field
  names. The records of a stream take the type of a number as a parameter, for the two
  readings of a Python \<^verbatim>\<open>float\<close> that follow.
  \<^item> As a \<^typ>\<open>real\<close>: the arithmetic is read as exact arithmetic on finite values, and
    rounding, infinities and NaN are outside this reading. It is the reading of
    \<open>calculate_metrics\<close> and \<open>calculate_performance\<close> below, for the statements on what
    the performance pass writes, and under which guards.
  \<^item> As a double: a finite number, an infinity or NaN, every operation rounded to the
    nearest double. It is the reading of \<open>calculate_metrics_float\<close> in the section on
    double precision, for the statements on the values \<^verbatim>\<open>calculate_metrics\<close> computes.

  Each record is a value: two streams of one entry never share a \<^verbatim>\<open>MetalContent\<close>
  object, as with the default factories of the dataclasses.
\<close>

record 'n MetalContent =
  pb_ton :: 'n
  zn_ton :: 'n
  ag_kg :: 'n

record 'n ProcessStream =
  wet_weight_ton :: 'n
  moisture_pct :: 'n
  pb_grade_pct :: 'n
  zn_grade_pct :: 'n
  ag_grade_gpt :: 'n
  dry_weight_ton :: 'n
  metal_content :: "'n MetalContent"

record PerformanceMetrics =
  yield_pct :: real
  recovery_pb_pct :: real
  recovery_zn_pct :: real
  recovery_ag_pct :: real
  enrichment_ratio_pb :: real

text \<open>
  A Python \<^verbatim>\<open>str\<close> is a sequence of Unicode code points; a code point is a natural
  number.
\<close>

type_synonym pystr = "nat list"

record WorkshopShiftEntry =
  shift_name :: pystr
  raw_ore :: "real ProcessStream"
  concentrate :: "real ProcessStream"
  tailings :: "real ProcessStream option"
  performance :: PerformanceMetrics

text \<open>
  \<^verbatim>\<open>ProcessStream.calculate_metrics\<close> in exact arithmetic: four assignments in the
  source's order; each later one reads the dry weight the first one has just stored.
\<close>

definition calculate_metrics :: "real ProcessStream \<Rightarrow> real ProcessStream" where
  "calculate_metrics self =
     (let s1 = self\<lparr>dry_weight_ton := wet_weight_ton self * (1 - moisture_pct self / 100)\<rparr>;
          s2 = s1\<lparr>metal_content := (metal_content s1)
                 \<lparr>pb_ton := dry_weight_ton s1 * (pb_grade_pct s1 / 100)\<rparr>\<rparr>;
          s3 = s2\<lparr>metal_content := (metal_content s2)
                 \<lparr>zn_ton := dry_weight_ton s2 * (zn_grade_pct s2 / 100)\<rparr>\<rparr>;
          s4 = s3\<lparr>metal_content := (metal_content s3)
                 \<lparr>ag_kg := dry_weight_ton s3 * ag_grade_gpt s3 / 1000\<rparr>\<rparr>
      in s4)"

text \<open>
  \<^verbatim>\<open>WorkshopShiftEntry.calculate_performance\<close>. Raw ore and concentrate are
  recalculated; \<^verbatim>\<open>tailings\<close> is not touched. Every division sits under the guard of
  its denominator, so no \<^verbatim>\<open>ZeroDivisionError\<close> can be raised.
\<close>

definition calculate_performance :: "WorkshopShiftEntry \<Rightarrow> WorkshopShiftEntry" where
  "calculate_performance self =
     (let e1 = self\<lparr>raw_ore := calculate_metrics (raw_ore self)\<rparr>;
          e2 = e1\<lparr>concentrate := calculate_metrics (concentrate e1)\<rparr>
      in if dry_weight_ton (raw_ore e2) > 0 then
           let p1 = (performance e2)\<lparr>yield_pct :=
                      dry_weight_ton (concentrate e2) / dry_weight_ton (raw_ore e2) * 100\<rparr>;
               p2 = (if pb_ton (metal_content (raw_ore e2)) > 0
                     then p1\<lparr>recovery_pb_pct :=
                            pb_ton (metal_content (concentrate e2))
                              / pb_ton (metal_content (raw_ore e2)) * 100\<rparr>
                     else p1);
               p3 = (if zn_ton (metal_content (raw_ore e2)) > 0
                     then p2\<lparr>recovery_zn_pct :=
                            zn_ton (metal_content (concentrate e2))
                              / zn_ton (metal_content (raw_ore e2)) * 100\<rparr>
                     else p2);
               p4 = (if ag_kg (metal_content (raw_ore e2)) > 0
                     then p3\<lparr>recovery_ag_pct :=
                            ag_kg (metal_content (concentrate e2))
                              / ag_kg (metal_content (raw_ore e2)) * 100\<rparr>
                     else p3);
               p5 = (if pb_grade_pct (raw_ore e2) > 0
                     then p4\<lparr>enrichment_ratio_pb :=
                            pb_grade_pct (concentrate e2) / pb_grade_pct (raw_ore e2)\<rparr>
                     else p4)
           in e2\<lparr>performance := p5\<rparr>
         else e2)"

text \<open>The state of the \<^verbatim>\<open>PerformanceMetrics\<close> dataclass right after construction.\<close>

definition default_performance :: PerformanceMetrics where
  "default_performance =
     \<lparr>yield_pct = 0, recovery_pb_pct = 0, recovery_zn_pct = 0, recovery_ag_pct = 0,
      enrichment_ratio_pb = 0\<rparr>"

section \<open>The date resolver (import\_accounting.py)\<close>

subsection \<open>Strings, digits and the library calls\<close>

text \<open>
  The functions below model the calls of the Python library that
  \<^verbatim>\<open>get_date_from_filename\<close> makes, on the arguments it makes them with. An error is
  a value: a function that can raise returns \<open>py_error + 'a\<close>.
\<close>

datatype py_error = IndexError | ValueError | TypeError

definition ascii :: "string \<Rightarrow> pystr" where
  "ascii s = map of_char s"

abbreviation dash :: nat where "dash \<equiv> 45"

abbreviation dot :: nat where "dot \<equiv> 46"

abbreviation slash :: nat where "slash \<equiv> 47"

text \<open>
  In a \<^verbatim>\<open>str\<close> pattern \<^verbatim>\<open>\d\<close> matches every Unicode decimal digit (category Nd), and
  \<^verbatim>\<open>int\<close> reads them all. Outside ASCII these digits come in blocks of ten consecutive
  code points, zero first; which blocks exist depends on the Unicode version of the
  interpreter, so the zeros of the blocks outside ASCII are the parameter \<open>nd\<close> of the
  model (\<open>[]\<close> for ASCII digits alone). \<open>decimal nd c\<close> is the value of the digit \<open>c\<close>.
\<close>

definition ascii_digit :: "nat \<Rightarrow> bool" where
  "ascii_digit c \<longleftrightarrow> 48 \<le> c \<and> c \<le> 57"

definition decimal :: "nat list \<Rightarrow> nat \<Rightarrow> nat option" where
  "decimal nd c =
     (if ascii_digit c then Some (c - 48)
      else case filter (\<lambda>z. 128 \<le> z \<and> z \<le> c \<and> c < z + 10) nd of
             [] \<Rightarrow> None
           | z # _ \<Rightarrow> Some (c - z))"

definition isdecimal :: "nat list \<Rightarrow> nat \<Rightarrow> bool" where
  "isdecimal nd c \<longleftrightarrow> decimal nd c \<noteq> None"

text \<open>
  \<^verbatim>\<open>int(s)\<close> for a string of decimal digits. (Python's \<^verbatim>\<open>int\<close> also reads signs,
  blanks and underscores; the groups of \<^verbatim>\<open>\d+\<close> it is called with here have none.)
\<close>

definition digits_value :: "nat list \<Rightarrow> pystr \<Rightarrow> nat" where
  "digits_value nd s =
     foldl (\<lambda>n c. 10 * n + (case decimal nd c of Some v \<Rightarrow> v | None \<Rightarrow> 0)) 0 s"

definition py_int :: "nat list \<Rightarrow> pystr \<Rightarrow> py_error + nat" where
  "py_int nd s =
     (if s \<noteq> [] \<and> list_all (isdecimal nd) s then Inr (digits_value nd s)
      else Inl ValueError)"

text \<open>\<^verbatim>\<open>str(n)\<close> and the format \<^verbatim>\<open>{n:02d}\<close> for an integer that is not negative.\<close>

fun py_str :: "nat \<Rightarrow> pystr" where
  "py_str n = (if n < 10 then [48 + n] else py_str (n div 10) @ [48 + n mod 10])"

declare py_str.simps [simp del]

definition format_02d :: "nat \<Rightarrow> pystr" where
  "format_02d n = replicate (2 - length (py_str n)) 48 @ py_str n"

text \<open>The operator \<^verbatim>\<open>in\<close> on strings: \<open>sub\<close> occurs in \<open>s\<close> as a contiguous piece.\<close>

fun contains :: "pystr \<Rightarrow> pystr \<Rightarrow> bool" where
  "contains sub [] = (sub = [])"
| "contains sub (c # cs) = (take (length sub) (c # cs) = sub \<or> contains sub cs)"

text \<open>
  \<^verbatim>\<open>os.path.basename\<close> and \<^verbatim>\<open>os.path.dirname\<close> of \<^verbatim>\<open>posixpath\<close>: the path is cut
  after its last slash; the head loses its trailing slashes unless it is made of slashes
  only.
\<close>

definition basename :: "pystr \<Rightarrow> pystr" where
  "basename p = rev (takeWhile (\<lambda>c. c \<noteq> slash) (rev p))"

definition dirname :: "pystr \<Rightarrow> pystr" where
  "dirname p =
     (let head = rev (dropWhile (\<lambda>c. c \<noteq> slash) (rev p))
      in if head \<noteq> [] \<and> head \<noteq> replicate (length head) slash
         then rev (dropWhile (\<lambda>c. c = slash) (rev head))
         else head)"

subsection \<open>The two patterns\<close>

text \<open>
  \<^verbatim>\<open>re.search\<close> tries the pattern at every offset from the left and returns the groups
  of the first offset where it matches. \<open>match_long\<close> is the pattern
  \<^verbatim>\<open>(\d{4})(\d{2})(\d{2})\<close> at the head of a string.
\<close>

definition match_long :: "nat list \<Rightarrow> pystr \<Rightarrow> (pystr \<times> pystr \<times> pystr) option" where
  "match_long nd s =
     (if 8 \<le> length s \<and> list_all (isdecimal nd) (take 8 s)
      then Some (take 4 s, take 2 (drop 4 s), take 2 (drop 6 s))
      else None)"

fun search_long :: "nat list \<Rightarrow> pystr \<Rightarrow> (pystr \<times> pystr \<times> pystr) option" where
  "search_long nd [] = None"
| "search_long nd (c # cs) =
     (case match_long nd (c # cs) of
        Some g \<Rightarrow> Some g
      | None \<Rightarrow> search_long nd cs)"

text \<open>
  \<open>match_short\<close> is the pattern \<^verbatim>\<open>(\d+)\.(\d+)\<close> at the head of a string. Both groups
  are greedy. The dot is not a digit, so the first group can only end where the digits
  end: giving digits back never helps, and nothing follows the second group.
\<close>

definition match_short :: "nat list \<Rightarrow> pystr \<Rightarrow> (pystr \<times> pystr) option" where
  "match_short nd s =
     (let month = takeWhile (isdecimal nd) s
      in case dropWhile (isdecimal nd) s of
           [] \<Rightarrow> None
         | c # rest \<Rightarrow>
             let day = takeWhile (isdecimal nd) rest
             in if month \<noteq> [] \<and> c = dot \<and> day \<noteq> [] then Some (month, day) else None)"

fun search_short :: "nat list \<Rightarrow> pystr \<Rightarrow> (pystr \<times> pystr) option" where
  "search_short nd [] = None"
| "search_short nd (c # cs) =
     (case match_short nd (c # cs) of
        Some g \<Rightarrow> Some g
      | None \<Rightarrow> search_short nd cs)"

subsection \<open>get\_date\_from\_filename\<close>

definition get_date_from_filename :: "nat list \<Rightarrow> pystr \<Rightarrow> py_error + pystr option" where
  "get_date_from_filename nd filepath =
     (let filename = basename filepath;
          parent_dir = basename (dirname filepath);
          year = (if contains (ascii ''2026'') parent_dir then 2026 else 2025 :: nat)
      in case search_long nd filename of
           Some (y, m, d) \<Rightarrow>
             let y' = (if y = ascii ''2006'' \<and> year = 2026 then ascii ''2026'' else y)
             in Inr (Some (y' @ dash # m @ dash # d))
         | None \<Rightarrow>
             (case search_short nd filename of
                Some (month, day) \<Rightarrow>
                  (case py_int nd month of
                     Inl e \<Rightarrow> Inl e
                   | Inr mo \<Rightarrow>
                       (case py_int nd day of
                          Inl e \<Rightarrow> Inl e
                        | Inr da \<Rightarrow>
                            Inr (Some (py_str year @ dash # format_02d mo
                                        @ dash # format_02d da))))
              | None \<Rightarrow> Inr None))"

section \<open>The extractors (import\_accounting.py, import\_august.py)\<close>

subsection \<open>Cells and guarded reads\<close>

text \<open>
  A value that \<^verbatim>\<open>float()\<close> returns: a finite number, an infinity or NaN. The extractors
  do no arithmetic on these values; they store them and compare them with 0.
\<close>

datatype pyfloat = Finite real | PosInf | NegInf | NaN

text \<open>The comparisons \<^verbatim>\<open>x <= 0\<close> and \<^verbatim>\<open>x > 0\<close>; both are false of NaN.\<close>

fun le_zero :: "pyfloat \<Rightarrow> bool" where
  "le_zero (Finite x) = (x \<le> 0)"
| "le_zero NegInf = True"
| "le_zero PosInf = False"
| "le_zero NaN = False"

fun gt_zero :: "pyfloat \<Rightarrow> bool" where
  "gt_zero (Finite x) = (0 < x)"
| "gt_zero PosInf = True"
| "gt_zero NegInf = False"
| "gt_zero NaN = False"

text \<open>
  An element of the frame that \<^verbatim>\<open>pd.read_excel\<close> returns, by what the code observes of
  it, \<^verbatim>\<open>pd.notnull\<close> and \<^verbatim>\<open>float()\<close>:
  \<^item> \<open>Blank\<close>: the NaN of an empty cell; it is null, and \<^verbatim>\<open>float\<close> returns NaN;
  \<^item> \<open>Null\<close>: another missing value (\<^verbatim>\<open>None\<close>, \<^verbatim>\<open>NaT\<close>); it is null, and
    \<^verbatim>\<open>float\<close> raises;
  \<^item> \<open>Coercible x\<close>: a value that is not null on which \<^verbatim>\<open>float\<close> returns \<open>x\<close>: a
    number, a boolean, or text that reads as a number (\<^verbatim>\<open>'3.75'\<close>, and also
    \<^verbatim>\<open>'NAN'\<close> or \<^verbatim>\<open>'inf'\<close>);
  \<^item> \<open>Uncoercible\<close>: a value that is not null on which \<^verbatim>\<open>float\<close> raises: other
    text, a date.
\<close>

datatype cell = Blank | Null | Coercible pyfloat | Uncoercible

fun notnull :: "cell \<Rightarrow> bool" where
  "notnull Blank = False"
| "notnull Null = False"
| "notnull (Coercible x) = True"
| "notnull Uncoercible = True"

fun py_float :: "cell \<Rightarrow> py_error + pyfloat" where
  "py_float Blank = Inr NaN"
| "py_float Null = Inl TypeError"
| "py_float (Coercible x) = Inr x"
| "py_float Uncoercible = Inl ValueError"

text \<open>
  The frame is the list of its rows. \<^verbatim>\<open>df.iloc[r, c]\<close> with integers: a negative
  index counts from the end, an index out of range raises \<^verbatim>\<open>IndexError\<close>.
\<close>

type_synonym grid = "cell list list"

definition position :: "nat \<Rightarrow> int \<Rightarrow> nat option" where
  "position n i =
     (let j = (if i < 0 then i + int n else i)
      in if 0 \<le> j \<and> j < int n then Some (nat j) else None)"

definition iloc :: "grid \<Rightarrow> int \<Rightarrow> int \<Rightarrow> py_error + cell" where
  "iloc df r c =
     (case position (length df) r of
        None \<Rightarrow> Inl IndexError
      | Some i \<Rightarrow>
          (case position (length (df ! i)) c of
             None \<Rightarrow> Inl IndexError
           | Some j \<Rightarrow> Inr (df ! i ! j)))"

text \<open>
  \<^verbatim>\<open>get_cell\<close> of \<^verbatim>\<open>import_accounting.parse_file\<close>: the read and the coercion are
  both inside the \<^verbatim>\<open>try\<close>, and the bare \<^verbatim>\<open>except\<close> turns every exception into 0.0.
\<close>

definition get_cell :: "grid \<Rightarrow> int \<Rightarrow> int \<Rightarrow> py_error + pyfloat" where
  "get_cell df r c =
     (case (case iloc df r c of
              Inl e \<Rightarrow> Inl e
            | Inr val \<Rightarrow> if notnull val then py_float val else Inr (Finite 0)) of
        Inl e \<Rightarrow> Inr (Finite 0)
      | Inr x \<Rightarrow> Inr x)"

text \<open>
  \<^verbatim>\<open>get_val\<close> of \<^verbatim>\<open>import_august.parse_file\<close>: the read stands before the
  \<^verbatim>\<open>try\<close>, so its exception leaves the function; only \<^verbatim>\<open>float(val)\<close> is guarded, and
  there is no test for a null value.
\<close>

definition get_val :: "grid \<Rightarrow> int \<Rightarrow> int \<Rightarrow> py_error + pyfloat" where
  "get_val df row col =
     (case iloc df row col of
        Inl e \<Rightarrow> Inl e
      | Inr val \<Rightarrow>
          (case py_float val of
             Inl e \<Rightarrow> Inr (Finite 0)
           | Inr x \<Rightarrow> Inr x))"

subsection \<open>parse\_file of the multi-shift extractor\<close>

record shift =
  name :: pystr
  col_start :: int

text \<open>The three shift labels are two Chinese characters each.\<close>

definition SHIFTS :: "shift list" where
  "SHIFTS =
     [\<lparr>name = [0x7532, 0x73ED], col_start = 1\<rparr>,
      \<lparr>name = [0x4E59, 0x73ED], col_start = 5\<rparr>,
      \<lparr>name = [0x4E19, 0x73ED], col_start = 9\<rparr>]"

text \<open>
  The payload dictionary. The three grade keys are shared by the three inner
  dictionaries; the keys \<^verbatim>\<open>concentrate\<close> and \<^verbatim>\<open>tailings\<close> of the outer one carry a
  suffix here, the calculator's records having fields of these names.
\<close>

record grades =
  pbGrade :: pyfloat
  znGrade :: pyfloat
  agGrade :: pyfloat

record raw_ore_grades = grades +
  wetWeight :: pyfloat
  moisture :: pyfloat

record tailings_grades = grades +
  fineness :: pyfloat

record payload =
  shiftDate :: pystr
  shiftType :: pystr
  runTime :: pyfloat
  rawOre :: raw_ore_grades
  concentrate_json :: grades
  tailings_json :: tailings_grades

text \<open>
  What \<^verbatim>\<open>parse_file\<close> does to the outside, in order: the lines it prints and the
  requests it sends. The reporting service is not part of the program: \<open>post p\<close> is the
  line printed after the request with payload \<open>p\<close> (a failure status or a request
  error), or \<open>None\<close> when the service accepts it.
\<close>

datatype event =
    Log_skipping pystr
  | Log_processing pystr pystr
  | Log_uploading pystr
  | Request payload
  | Log_response pystr
  | Log_error pystr py_error

definition try_bind :: "py_error + 'a \<Rightarrow> ('a \<Rightarrow> py_error + 'b) \<Rightarrow> py_error + 'b" where
  "try_bind r f = (case r of Inl e \<Rightarrow> Inl e | Inr x \<Rightarrow> f x)"

text \<open>
  The body of the loop for one shift: \<open>Inr\<close> of what it prints and sends, or \<open>Inl\<close> of
  an exception that leaves it. \<^verbatim>\<open>continue\<close> ends the body with nothing done.
\<close>

definition process_shift ::
  "(payload \<Rightarrow> pystr option) \<Rightarrow> grid \<Rightarrow> pystr \<Rightarrow> shift \<Rightarrow> py_error + event list" where
  "process_shift post df date_str shift =
     (let col_pb = col_start shift;
          col_ag = col_start shift + 1;
          col_val = col_start shift + 3
      in try_bind (get_cell df 4 col_pb) (\<lambda>raw_pb.
         if le_zero raw_pb then Inr []
         else
         try_bind (get_cell df 4 col_ag) (\<lambda>raw_ag.
         try_bind (get_cell df 4 col_val) (\<lambda>run_time.
         try_bind (get_cell df 5 col_pb) (\<lambda>conc_pb.
         try_bind (get_cell df 5 col_ag) (\<lambda>conc_ag.
         try_bind (get_cell df 5 col_val) (\<lambda>wet_weight.
         try_bind (get_cell df 6 col_pb) (\<lambda>tail_pb.
         try_bind (get_cell df 6 col_ag) (\<lambda>tail_ag.
         try_bind (get_cell df 6 col_val) (\<lambda>fineness_val.
         try_bind (get_cell df 7 col_val) (\<lambda>moisture_val.
           let p = \<lparr>shiftDate = date_str, shiftType = name shift, runTime = run_time,
                    rawOre = \<lparr>pbGrade = raw_pb, znGrade = Finite 0, agGrade = raw_ag,
                              wetWeight = wet_weight, moisture = moisture_val\<rparr>,
                    concentrate_json =
                      \<lparr>pbGrade = conc_pb, znGrade = Finite 0, agGrade = conc_ag\<rparr>,
                    tailings_json =
                      \<lparr>pbGrade = tail_pb, znGrade = Finite 0, agGrade = tail_ag,
                       fineness = fineness_val\<rparr>\<rparr>
           in Inr ([Log_uploading (name shift), Request p]
                   @ (case post p of None \<Rightarrow> [] | Some line \<Rightarrow> [Log_response line]))
         )))))))))))"

text \<open>
  The \<^verbatim>\<open>for\<close> loop: the events of the shifts in order, and the exception that ended
  the loop early, if one did.
\<close>

fun run_shifts ::
  "(payload \<Rightarrow> pystr option) \<Rightarrow> grid \<Rightarrow> pystr \<Rightarrow> shift list
     \<Rightarrow> event list \<times> py_error option" where
  "run_shifts post df date_str [] = ([], None)"
| "run_shifts post df date_str (shift # rest) =
     (case process_shift post df date_str shift of
        Inl e \<Rightarrow> ([], Some e)
      | Inr evs \<Rightarrow>
          (case run_shifts post df date_str rest of
             (evs', err) \<Rightarrow> (evs @ evs', err)))"

text \<open>
  \<^verbatim>\<open>parse_file\<close>. \<open>read\<close> is the outcome of \<^verbatim>\<open>pd.read_excel(filepath, header=None)\<close>.
  The handler of the outer \<^verbatim>\<open>try\<close> prints the exception that reaches it.
\<close>

definition parse_file ::
  "nat list \<Rightarrow> (payload \<Rightarrow> pystr option) \<Rightarrow> pystr \<Rightarrow> py_error + grid \<Rightarrow> event list" where
  "parse_file nd post filepath read =
     (case read of
        Inl e \<Rightarrow> [Log_error filepath e]
      | Inr df \<Rightarrow>
          (case get_date_from_filename nd filepath of
             Inl e \<Rightarrow> [Log_error filepath e]
           | Inr None \<Rightarrow> [Log_skipping filepath]
           | Inr (Some date_str) \<Rightarrow>
               (case run_shifts post df date_str SHIFTS of
                  (evs, None) \<Rightarrow> Log_processing filepath date_str # evs
                | (evs, Some e) \<Rightarrow>
                    Log_processing filepath date_str # evs @ [Log_error filepath e])))"

section \<open>The balance calculator in double precision (workshop\_model.py)\<close>

subsection \<open>Rounding to the nearest double\<close>

text \<open>
  A double is a \<^typ>\<open>pyfloat\<close>: an infinity, NaN, or a finite number of the form
  \<open>k * 2 powi q\<close> with \<open>\<bar>k\<bar> \<le> 2 ^ 53\<close> and \<open>q \<ge> -1074\<close>, below \<open>2 ^ 1024\<close> in absolute
  value. The two zeros of the format are one value here: they compare equal, and the
  operations below give on them results that differ in the sign of a zero at most.

  \<open>ilog2 x\<close> is the exponent of the binade of a positive \<open>x\<close>, the integer \<open>e\<close> with
  \<open>2 powi e \<le> x < 2 powi (e + 1)\<close>; it is computed by halving a number from 1 upwards
  and doubling a number below 1.
\<close>

function halvings :: "real \<Rightarrow> nat" where
  "halvings x = (if x < 2 then 0 else Suc (halvings (x / 2)))"
  by pat_completeness auto
termination
proof (relation "measure (\<lambda>x. nat \<lfloor>x\<rfloor>)")
  show "wf (measure (\<lambda>x. nat \<lfloor>x\<rfloor>))" by simp
next
  fix x :: real
  assume "\<not> x < 2"
  then have "x / 2 \<le> x - 1" by simp
  moreover have "of_int \<lfloor>x / 2\<rfloor> \<le> x / 2" by (rule of_int_floor_le)
  moreover have "x - 1 < of_int \<lfloor>x\<rfloor>" by linarith
  ultimately have "\<lfloor>x / 2\<rfloor> < \<lfloor>x\<rfloor>" by linarith
  moreover have "0 < \<lfloor>x\<rfloor>" using \<open>\<not> x < 2\<close> by simp
  ultimately show "(x / 2, x) \<in> measure (\<lambda>x. nat \<lfloor>x\<rfloor>)" by simp
qed

declare halvings.simps [simp del]

function doublings :: "real \<Rightarrow> nat" where
  "doublings x = (if 1 \<le> x \<or> x \<le> 0 then 0 else Suc (doublings (2 * x)))"
  by pat_completeness auto
termination
proof (relation "measure (\<lambda>x. nat \<lfloor>1 / x\<rfloor>)")
  show "wf (measure (\<lambda>x. nat \<lfloor>1 / x\<rfloor>))" by simp
next
  fix x :: real
  assume "\<not> (1 \<le> x \<or> x \<le> 0)"
  then have x: "0 < x" "x < 1" by simp_all
  then have y: "1 < 1 / x" by simp
  then have n: "1 \<le> \<lfloor>1 / x\<rfloor>" by simp
  have "1 / (2 * x) = (1 / x) / 2" by simp
  also have "\<dots> < (of_int \<lfloor>1 / x\<rfloor> + 1) / 2" by (simp add: divide_strict_right_mono)
  also have "\<dots> \<le> of_int \<lfloor>1 / x\<rfloor>" using n by simp
  finally have "\<lfloor>1 / (2 * x)\<rfloor> < \<lfloor>1 / x\<rfloor>" by (simp add: floor_less_iff)
  with n show "(2 * x, x) \<in> measure (\<lambda>x. nat \<lfloor>1 / x\<rfloor>)" by simp
qed

declare doublings.simps [simp del]

definition ilog2 :: "real \<Rightarrow> int" where
  "ilog2 x = (if 1 \<le> x then int (halvings x) else - int (doublings x))"

text \<open>
  \<open>quantum x\<close> is the exponent of the spacing of the doubles around \<open>x\<close>: 52 below the
  exponent of its binade (a significand of 53 bits), and never below that of the
  subnormal numbers. \<open>round_even\<close> rounds to the nearest integer, a tie to the even one;
  \<open>fl x\<close> is the multiple of the spacing nearest to \<open>x\<close>, the result of rounding with an
  exponent that has no upper bound.
\<close>

definition quantum :: "real \<Rightarrow> int" where
  "quantum x = max (ilog2 \<bar>x\<bar> - 52) (- 1074)"

definition round_even :: "real \<Rightarrow> int" where
  "round_even y =
     (let n = \<lfloor>y\<rfloor>; r = y - of_int n
      in if r < 1 / 2 then n else if 1 / 2 < r then n + 1
         else if even n then n else n + 1)"

definition fl :: "real \<Rightarrow> real" where
  "fl x = (if x = 0 then 0
           else of_int (round_even (x / 2 powi quantum x)) * 2 powi quantum x)"

text \<open>
  The result of an operation whose exact value is \<open>x\<close>, and the double that a literal
  of the value \<open>x\<close> denotes: the rounded value, or an infinity when it reaches \<open>2 ^ 1024\<close>.
  Python raises no exception where a product, a difference or a quotient by a constant
  other than 0 overflows.
\<close>

definition overflow_threshold :: real where
  "overflow_threshold = 2 ^ 1024"

definition py_round :: "real \<Rightarrow> pyfloat" where
  "py_round x =
     (let r = fl x
      in if overflow_threshold \<le> r then PosInf
         else if r \<le> - overflow_threshold then NegInf
         else Finite r)"

text \<open>
  A value of a field is a double: a finite one is its own rounding and lies below the
  threshold.
\<close>

fun is_float :: "pyfloat \<Rightarrow> bool" where
  "is_float (Finite x) = (fl x = x \<and> \<bar>x\<bar> < overflow_threshold)"
| "is_float a = True"

subsection \<open>The operations of the calculator\<close>

text \<open>
  The difference and the product of two doubles, the quotient of a double by a constant
  (the source divides by \<^verbatim>\<open>100.0\<close> and by \<^verbatim>\<open>1000.0\<close> only), and the comparison
  \<^verbatim>\<open><=\<close>, which is false as soon as one side is NaN.
\<close>

fun fsub :: "pyfloat \<Rightarrow> pyfloat \<Rightarrow> pyfloat" where
  "fsub (Finite x) (Finite y) = py_round (x - y)"
| "fsub NaN b = NaN"
| "fsub a NaN = NaN"
| "fsub PosInf PosInf = NaN"
| "fsub NegInf NegInf = NaN"
| "fsub PosInf b = PosInf"
| "fsub NegInf b = NegInf"
| "fsub (Finite x) PosInf = NegInf"
| "fsub (Finite x) NegInf = PosInf"

fun is_zero :: "pyfloat \<Rightarrow> bool" where
  "is_zero (Finite x) = (x = 0)"
| "is_zero a = False"

fun is_negative :: "pyfloat \<Rightarrow> bool" where
  "is_negative (Finite x) = (x < 0)"
| "is_negative NegInf = True"
| "is_negative a = False"

fun fmul :: "pyfloat \<Rightarrow> pyfloat \<Rightarrow> pyfloat" where
  "fmul (Finite x) (Finite y) = py_round (x * y)"
| "fmul NaN b = NaN"
| "fmul a NaN = NaN"
| "fmul a b =
     (if is_zero a \<or> is_zero b then NaN
      else if is_negative a = is_negative b then PosInf else NegInf)"

fun fdiv :: "pyfloat \<Rightarrow> real \<Rightarrow> pyfloat" where
  "fdiv (Finite x) c = py_round (x / c)"
| "fdiv NaN c = NaN"
| "fdiv PosInf c = (if 0 < c then PosInf else NegInf)"
| "fdiv NegInf c = (if 0 < c then NegInf else PosInf)"

fun fle :: "pyfloat \<Rightarrow> pyfloat \<Rightarrow> bool" where
  "fle (Finite x) (Finite y) = (x \<le> y)"
| "fle NaN b = False"
| "fle a NaN = False"
| "fle NegInf b = True"
| "fle a PosInf = True"
| "fle a b = False"

subsection \<open>calculate\_metrics\<close>

text \<open>
  \<^verbatim>\<open>ProcessStream.calculate_metrics\<close> on doubles: the four assignments of the source
  with its grouping of the operations, \<^verbatim>\<open>wet * (1 - moisture / 100.0)\<close>,
  \<^verbatim>\<open>dry * (pb / 100.0)\<close>, \<^verbatim>\<open>dry * (zn / 100.0)\<close> and \<^verbatim>\<open>(dry * ag) / 1000.0\<close>.
\<close>

definition calculate_metrics_float :: "pyfloat ProcessStream \<Rightarrow> pyfloat ProcessStream" where
  "calculate_metrics_float self =
     (let s1 = self\<lparr>dry_weight_ton :=
                 fmul (wet_weight_ton self) (fsub (Finite 1) (fdiv (moisture_pct self) 100))\<rparr>;
          s2 = s1\<lparr>metal_content := (metal_content s1)
                 \<lparr>pb_ton := fmul (dry_weight_ton s1) (fdiv (pb_grade_pct s1) 100)\<rparr>\<rparr>;
          s3 = s2\<lparr>metal_content := (metal_content s2)
                 \<lparr>zn_ton := fmul (dry_weight_ton s2) (fdiv (zn_grade_pct s2) 100)\<rparr>\<rparr>;
          s4 = s3\<lparr>metal_content := (metal_content s3)
                 \<lparr>ag_kg := fdiv (fmul (dry_weight_ton s3) (ag_grade_gpt s3)) 1000\<rparr>\<rparr>
      in s4)"

section \<open>Notions used in the statements and in the proofs\<close>

subsection \<open>The invariant of a stream\<close>


text \<open>A canonical date: four ASCII digits, a hyphen, two ASCII digits, a hyphen, two ASCII digits.\<close>

definition canonical_date :: "pystr \<Rightarrow> bool" where
  "canonical_date s \<longleftrightarrow>
     length s = 10 \<and> list_all ascii_digit (take 4 s) \<and> s ! 4 = dash \<and>
     list_all ascii_digit (take 2 (drop 5 s)) \<and> s ! 7 = dash \<and>
     list_all ascii_digit (drop 8 s)"

subsection \<open>The performance pass\<close>

text \<open>
  What \<^const>\<open>calculate_performance\<close> does to the performance record, given the two
  recalculated streams: the nested guards of the source, field by field.
\<close>

definition performance_pass ::
  "real ProcessStream \<Rightarrow> real ProcessStream \<Rightarrow> PerformanceMetrics
     \<Rightarrow> PerformanceMetrics" where
  "performance_pass r c p =
     (if dry_weight_ton r > 0 then
        p\<lparr>yield_pct := dry_weight_ton c / dry_weight_ton r * 100,
          recovery_pb_pct := (if pb_ton (metal_content r) > 0
             then pb_ton (metal_content c) / pb_ton (metal_content r) * 100
             else recovery_pb_pct p),
          recovery_zn_pct := (if zn_ton (metal_content r) > 0
             then zn_ton (metal_content c) / zn_ton (metal_content r) * 100
             else recovery_zn_pct p),
          recovery_ag_pct := (if ag_kg (metal_content r) > 0
             then ag_kg (metal_content c) / ag_kg (metal_content r) * 100
             else recovery_ag_pct p),
          enrichment_ratio_pb := (if pb_grade_pct r > 0
             then pb_grade_pct c / pb_grade_pct r
             else enrichment_ratio_pb p)\<rparr>
      else p)"

subsection \<open>Where the two patterns match\<close>

text \<open>
  \<open>run8_at nd s k\<close>: eight decimal digits stand at offset \<open>k\<close> of \<open>s\<close>, so the long
  pattern matches there; \<open>groups8\<close> cuts the three groups of the match.
\<close>

definition run8_at :: "nat list \<Rightarrow> pystr \<Rightarrow> nat \<Rightarrow> bool" where
  "run8_at nd s k \<longleftrightarrow> k + 8 \<le> length s \<and> list_all (isdecimal nd) (take 8 (drop k s))"

definition groups8 :: "pystr \<Rightarrow> pystr \<times> pystr \<times> pystr" where
  "groups8 s = (take 4 s, take 2 (drop 4 s), take 2 (drop 6 s))"

text \<open>\<open>short_at nd s k\<close>: the short pattern matches at offset \<open>k\<close> of \<open>s\<close>.\<close>

definition short_at :: "nat list \<Rightarrow> pystr \<Rightarrow> nat \<Rightarrow> bool" where
  "short_at nd s k \<longleftrightarrow> match_short nd (drop k s) \<noteq> None"

subsection \<open>What the guarded read returns and what the loop emits\<close>

text \<open>\<open>cell_value df r c\<close> is the number \<^verbatim>\<open>get_cell(r, c)\<close> returns on the frame \<open>df\<close>.\<close>

definition cell_value :: "grid \<Rightarrow> int \<Rightarrow> int \<Rightarrow> pyfloat" where
  "cell_value df r c = (case iloc df r c of Inr (Coercible x) \<Rightarrow> x | _ \<Rightarrow> Finite 0)"

text \<open>
  The payload of a shift that is present, and the events of one pass of the loop body;
  \<open>requests\<close> keeps the payloads of a list of events.
\<close>

definition payload_of :: "grid \<Rightarrow> pystr \<Rightarrow> shift \<Rightarrow> payload" where
  "payload_of df date_str sh =
     \<lparr>shiftDate = date_str, shiftType = name sh,
      runTime = cell_value df 4 (col_start sh + 3),
      rawOre = \<lparr>pbGrade = cell_value df 4 (col_start sh), znGrade = Finite 0,
                agGrade = cell_value df 4 (col_start sh + 1),
                wetWeight = cell_value df 5 (col_start sh + 3),
                moisture = cell_value df 7 (col_start sh + 3)\<rparr>,
      concentrate_json =
        \<lparr>pbGrade = cell_value df 5 (col_start sh), znGrade = Finite 0,
         agGrade = cell_value df 5 (col_start sh + 1)\<rparr>,
      tailings_json =
        \<lparr>pbGrade = cell_value df 6 (col_start sh), znGrade = Finite 0,
         agGrade = cell_value df 6 (col_start sh + 1),
         fineness = cell_value df 6 (col_start sh + 3)\<rparr>\<rparr>"

definition shift_events ::
  "(payload \<Rightarrow> pystr option) \<Rightarrow> grid \<Rightarrow> pystr \<Rightarrow> shift \<Rightarrow> event list" where
  "shift_events post df date_str sh =
     (if le_zero (cell_value df 4 (col_start sh)) then []
      else [Log_uploading (name sh), Request (payload_of df date_str sh)]
           @ (case post (payload_of df date_str sh) of
                None \<Rightarrow> [] | Some line \<Rightarrow> [Log_response line]))"

fun requests :: "event list \<Rightarrow> payload list" where
  "requests [] = []"
| "requests (Request p # evs) = p # requests evs"
| "requests (ev # evs) = requests evs"

section \<open>Example inputs\<close>

text \<open>The example of the module's \<^verbatim>\<open>__main__\<close> block: raw ore of the second shift.\<close>

definition example_raw :: "real ProcessStream" where
  "example_raw =
     \<lparr>wet_weight_ton = 128, moisture_pct = 3, pb_grade_pct = 3.75, zn_grade_pct = 0,
      ag_grade_gpt = 161, dry_weight_ton = 0,
      metal_content = \<lparr>pb_ton = 0, zn_ton = 0, ag_kg = 0\<rparr>\<rparr>"

definition example_conc :: "real ProcessStream" where
  "example_conc =
     \<lparr>wet_weight_ton = 6.899896, moisture_pct = 0, pb_grade_pct = 65.27, zn_grade_pct = 0,
      ag_grade_gpt = 3352, dry_weight_ton = 6.899896,
      metal_content = \<lparr>pb_ton = 0, zn_ton = 0, ag_kg = 0\<rparr>\<rparr>"

definition example_entry :: WorkshopShiftEntry where
  "example_entry =
     \<lparr>shift_name = [0x4E59, 0x73ED], raw_ore = example_raw, concentrate = example_conc,
      tailings = None, performance = default_performance\<rparr>"

text \<open>
  The same raw ore in doubles, and a stream whose wet weight is infinite and whose
  moisture is 100.
\<close>

definition example_raw_float :: "pyfloat ProcessStream" where
  "example_raw_float =
     \<lparr>wet_weight_ton = Finite 128, moisture_pct = Finite 3, pb_grade_pct = Finite 3.75,
      zn_grade_pct = Finite 0, ag_grade_gpt = Finite 161, dry_weight_ton = Finite 0,
      metal_content = \<lparr>pb_ton = Finite 0, zn_ton = Finite 0, ag_kg = Finite 0\<rparr>\<rparr>"

definition infinite_stream :: "pyfloat ProcessStream" where
  "infinite_stream = example_raw_float\<lparr>wet_weight_ton := PosInf, moisture_pct := Finite 100\<rparr>"

text \<open>An entry whose raw ore has no mass, and one whose tailings were measured.\<close>

definition idle_entry :: WorkshopShiftEntry where
  "idle_entry = example_entry\<lparr>raw_ore := example_raw\<lparr>wet_weight_ton := 0\<rparr>\<rparr>"



text \<open>
  The file names of the source's comments: \<open>hesuanbiao\<close> is the prefix of three Chinese
  characters (U+6838, U+7B97, U+8868) that the report files carry.
\<close>

definition hesuanbiao :: pystr where
  "hesuanbiao = [0x6838, 0x7B97, 0x8868]"

text \<open>
  Paths of the shapes the source's comments name, evaluated with ASCII digits alone
  (\<open>nd = []\<close>): none of their other characters is a decimal digit in any Unicode version.
\<close>

definition path_2026 :: pystr where
  "path_2026 = ascii ''data/2026/'' @ hesuanbiao @ ascii ''20260127.xlsx''"

definition path_2006 :: pystr where
  "path_2006 = ascii ''data/2026/'' @ hesuanbiao @ ascii ''20060127.xlsx''"

definition path_short :: pystr where
  "path_short = ascii ''data/reports/'' @ hesuanbiao @ ascii ''8.19.xlsx''"

definition path_2024 :: pystr where
  "path_2024 = ascii ''data/2024/'' @ hesuanbiao @ ascii ''8.19.xlsx''"

definition path_dotted :: pystr where
  "path_dotted = ascii ''data/reports/'' @ hesuanbiao @ ascii ''2025.8.19.xlsx''"

definition path_2026_short :: pystr where
  "path_2026_short = ascii ''data/2026/'' @ hesuanbiao @ ascii ''1.05.xlsx''"

text \<open>
  A sheet of the three-shift layout: the first shift reports zeros, the second one has
  data, the third one is empty. \<open>label\<close> is a cell of text, \<open>num x\<close> a numeric cell.
  \<open>accepted\<close> is a service that accepts every request.
\<close>

definition label :: cell where
  "label = Uncoercible"

definition num :: "real \<Rightarrow> cell" where
  "num x = Coercible (Finite x)"

definition example_grid :: grid where
  "example_grid =
     replicate 4 (replicate 13 label) @
     [[label, num 0, num 0, label, num 0,
              num 3.75, num 161, label, num 8,
              Blank, Blank, label, Blank],
      [label, num 0, num 0, label, num 0,
              num 65.27, num 3352, label, num 128,
              Blank, Blank, label, Blank],
      [label, num 0, num 0, label, num 0,
              num 0.13, num 8, label, num 70,
              Blank, Blank, label, Blank],
      [label, Blank, Blank, label, num 0,
              Blank, Blank, label, num 3,
              Blank, Blank, label, Blank]]"

definition nan_grid :: grid where
  "nan_grid = replicate 4 (replicate 2 label) @ [[label, Coercible NaN]]"

definition accepted :: "payload \<Rightarrow> pystr option" where
  "accepted p = None"

definition example_payload :: payload where
  "example_payload =
     \<lparr>shiftDate = ascii ''2025-08-19'', shiftType = [0x4E59, 0x73ED], runTime = Finite 8,
      rawOre = \<lparr>pbGrade = Finite 3.75, znGrade = Finite 0, agGrade = Finite 161,
                wetWeight = Finite 128, moisture = Finite 3\<rparr>,
      concentrate_json = \<lparr>pbGrade = Finite 65.27, znGrade = Finite 0, agGrade = Finite 3352\<rparr>,
      tailings_json = \<lparr>pbGrade = Finite 0.13, znGrade = Finite 0, agGrade = Finite 8,
                       fineness = Finite 70\<rparr>\<rparr>"

definition nan_payload :: payload where
  "nan_payload =
     \<lparr>shiftDate = ascii ''2025-08-19'', shiftType = [0x7532, 0x73ED], runTime = Finite 0,
      rawOre = \<lparr>pbGrade = NaN, znGrade = Finite 0, agGrade = Finite 0,
                wetWeight = Finite 0, moisture = Finite 0\<rparr>,
      concentrate_json = \<lparr>pbGrade = Finite 0, znGrade = Finite 0, agGrade = Finite 0\<rparr>,
      tailings_json = \<lparr>pbGrade = Finite 0, znGrade = Finite 0, agGrade = Finite 0,
                       fineness = Finite 0\<rparr>\<rparr>"

text \<open>
  A sheet of five rows whose first shift has an empty lead-grade cell, whose second shift
  has the text \<^verbatim>\<open>'NAN'\<close> there and whose third shift has the text \<^verbatim>\<open>'inf'\<close>; the two
  payloads are those of the second and of the third shift.
\<close>

definition text_grid :: grid where
  "text_grid =
     replicate 4 (replicate 10 label) @
     [[label, Blank, Blank, label, Blank,
              Coercible NaN, num 161, label, num 8,
              Coercible PosInf]]"

definition text_payload_yi :: payload where
  "text_payload_yi =
     \<lparr>shiftDate = ascii ''2025-08-19'', shiftType = [0x4E59, 0x73ED], runTime = Finite 8,
      rawOre = \<lparr>pbGrade = NaN, znGrade = Finite 0, agGrade = Finite 161,
                wetWeight = Finite 0, moisture = Finite 0\<rparr>,
      concentrate_json = \<lparr>pbGrade = Finite 0, znGrade = Finite 0, agGrade = Finite 0\<rparr>,
      tailings_json = \<lparr>pbGrade = Finite 0, znGrade = Finite 0, agGrade = Finite 0,
                       fineness = Finite 0\<rparr>\<rparr>"

definition text_payload_bing :: payload where
  "text_payload_bing =
     \<lparr>shiftDate = ascii ''2025-08-19'', shiftType = [0x4E19, 0x73ED], runTime = Finite 0,
      rawOre = \<lparr>pbGrade = PosInf, znGrade = Finite 0, agGrade = Finite 0,
                wetWeight = Finite 0, moisture = Finite 0\<rparr>,
      concentrate_json = \<lparr>pbGrade = Finite 0, znGrade = Finite 0, agGrade = Finite 0\<rparr>,
      tailings_json = \<lparr>pbGrade = Finite 0, znGrade = Finite 0, agGrade = Finite 0,
                       fineness = Finite 0\<rparr>\<rparr>"

text \<open>The three entries of \<^verbatim>\<open>SHIFTS\<close>, and two frames for \<^verbatim>\<open>get_val\<close>.\<close>

definition shift_jia :: shift where
  "shift_jia = \<lparr>name = [0x7532, 0x73ED], col_start = 1\<rparr>"

definition shift_yi :: shift where
  "shift_yi = \<lparr>name = [0x4E59, 0x73ED], col_start = 5\<rparr>"

definition shift_bing :: shift where
  "shift_bing = \<lparr>name = [0x4E19, 0x73ED], col_start = 9\<rparr>"

definition short_grid :: grid where
  "short_grid = replicate 4 (replicate 4 label)"

definition blank_grid :: grid where
  "blank_grid = replicate 4 (replicate 4 label) @ [[label, Blank, num 2.1, num 95]]"

chapter \<open>Properties\<close>

section \<open>Rounding to the nearest double\<close>

lemma halvings_bounds: "1 \<le> x \<Longrightarrow> 2 ^ halvings x \<le> x \<and> x < 2 ^ Suc (halvings x)"
proof (induction x rule: halvings.induct)
  case (1 x)
  show ?case
  proof (cases "x < 2")
    case True
    with 1(2) show ?thesis by (simp add: halvings.simps [of x])
  next
    case False
    then have "1 \<le> x / 2" by simp
    with 1(1) False have "2 ^ halvings (x / 2) \<le> x / 2 \<and> x / 2 < 2 ^ Suc (halvings (x / 2))"
      by blast
    with False show ?thesis by (simp add: halvings.simps [of x])
  qed
qed

lemma doublings_bounds:
  "0 < x \<Longrightarrow> x < 1 \<Longrightarrow> 1 \<le> x * 2 ^ doublings x \<and> x * 2 ^ doublings x < 2"
proof (induction x rule: doublings.induct)
  case (1 x)
  from 1(2,3) have rec: "doublings x = Suc (doublings (2 * x))"
    by (simp add: doublings.simps [of x])
  show ?case
  proof (cases "1 \<le> 2 * x")
    case True
    then have "doublings (2 * x) = 0" by (simp add: doublings.simps [of "2 * x"])
    with True 1(3) show ?thesis by (simp add: rec)
  next
    case False
    with 1 have "1 \<le> 2 * x * 2 ^ doublings (2 * x) \<and> 2 * x * 2 ^ doublings (2 * x) < 2"
      by simp
    then show ?thesis by (simp add: rec mult_ac)
  qed
qed

lemma ilog2_bounds:
  assumes "0 < x"
  shows "2 powi ilog2 x \<le> x \<and> x < 2 powi (ilog2 x + 1)"
proof (cases "1 \<le> x")
  case True
  have "(2::real) powi (int (halvings x) + 1) = 2 ^ Suc (halvings x)"
    by (simp add: power_int_add)
  with halvings_bounds [OF True] True show ?thesis
    by (simp add: ilog2_def)
next
  case False
  then have x: "x < 1" by simp
  let ?d = "doublings x"
  from doublings_bounds [OF assms x] have b: "1 \<le> x * 2 ^ ?d" "x * 2 ^ ?d < 2" by simp_all
  have p: "(2::real) powi (- int ?d) = 1 / 2 ^ ?d"
    by (simp add: power_int_minus_divide)
  have "(2::real) powi (- int ?d + 1) = 2 powi (- int ?d) * 2 powi 1"
    by (rule power_int_add) simp
  then have q: "(2::real) powi (- int ?d + 1) = 2 / 2 ^ ?d"
    by (simp add: p)
  from b have "1 / 2 ^ ?d \<le> x" "x < 2 / 2 ^ ?d"
    by (simp_all add: field_simps)
  moreover have "ilog2 x = - int ?d"
    using False by (simp add: ilog2_def)
  ultimately show ?thesis
    by (simp only: p q)
qed

lemma powi_less_exp:
  assumes "(2::real) powi a < 2 powi b"
  shows "a < b"
proof (rule ccontr)
  assume "\<not> a < b"
  then have "(2::real) powi b \<le> 2 powi a"
    by (intro power_int_increasing) simp_all
  with assms show False
    by simp
qed

lemma ilog2_mono: "0 < x \<Longrightarrow> x \<le> y \<Longrightarrow> ilog2 x \<le> ilog2 y"
proof -
  assume "0 < x" "x \<le> y"
  then have "2 powi ilog2 x \<le> x" "y < 2 powi (ilog2 y + 1)"
    using ilog2_bounds [of x] ilog2_bounds [of y] by simp_all
  with \<open>x \<le> y\<close> have "(2::real) powi ilog2 x < 2 powi (ilog2 y + 1)" by linarith
  then have "ilog2 x < ilog2 y + 1" by (rule powi_less_exp)
  then show ?thesis by simp
qed

lemma quantum_mono: "0 < x \<Longrightarrow> x \<le> y \<Longrightarrow> quantum x \<le> quantum y"
  using ilog2_mono [of x y] by (simp add: quantum_def)

lemma round_even_bounds: "\<lfloor>y\<rfloor> \<le> round_even y \<and> round_even y \<le> \<lfloor>y\<rfloor> + 1"
  by (simp add: round_even_def Let_def)

lemma round_even_of_int: "round_even (of_int k) = k"
  by (simp add: round_even_def Let_def)

lemma round_even_mono: "x \<le> y \<Longrightarrow> round_even x \<le> round_even y"
proof -
  assume xy: "x \<le> y"
  then have f: "\<lfloor>x\<rfloor> \<le> \<lfloor>y\<rfloor>" by (rule floor_mono)
  show ?thesis
  proof (cases "\<lfloor>x\<rfloor> = \<lfloor>y\<rfloor>")
    case True
    with xy show ?thesis
      by (auto simp: round_even_def Let_def)
  next
    case False
    with f have "\<lfloor>x\<rfloor> + 1 \<le> \<lfloor>y\<rfloor>" by simp
    with round_even_bounds [of x] round_even_bounds [of y] show ?thesis by linarith
  qed
qed

lemma fl_nonneg: "0 \<le> x \<Longrightarrow> 0 \<le> fl x"
proof -
  assume "0 \<le> x"
  then have "0 \<le> x / 2 powi quantum x" by simp
  then have "round_even 0 \<le> round_even (x / 2 powi quantum x)" by (rule round_even_mono)
  moreover have "round_even 0 = 0" using round_even_of_int [of 0] by simp
  ultimately show ?thesis by (simp add: fl_def)
qed

lemma fl_mono:
  assumes "0 \<le> x" "x \<le> y"
  shows "fl x \<le> fl y"
proof (cases "x = 0")
  case True
  with assms fl_nonneg [of y] show ?thesis by (simp add: fl_def)
next
  case False
  with assms have x: "0 < x" and y: "0 < y" by simp_all
  let ?p = "quantum x" and ?q = "quantum y"
  have pq: "?p \<le> ?q" using x assms(2) by (rule quantum_mono)
  have flx: "fl x = of_int (round_even (x / 2 powi ?p)) * 2 powi ?p"
    and fly: "fl y = of_int (round_even (y / 2 powi ?q)) * 2 powi ?q"
    using x y by (simp_all add: fl_def)
  show ?thesis
  proof (cases "?p = ?q")
    case True
    have "x / 2 powi ?q \<le> y / 2 powi ?q"
      using assms(2) by (simp add: divide_right_mono)
    then have "round_even (x / 2 powi ?q) \<le> round_even (y / 2 powi ?q)"
      by (rule round_even_mono)
    then show ?thesis
      unfolding flx fly True by (simp add: mult_right_mono)
  next
    case False
    with pq have lt: "?p < ?q" by simp
    have ax: "\<bar>x\<bar> = x" and ay: "\<bar>y\<bar> = y"
      using x y by simp_all
    have "- 1074 \<le> ?p"
      by (simp add: quantum_def)
    with lt have qy: "?q = ilog2 y - 52"
      unfolding quantum_def ay by linarith
    have "ilog2 x - 52 \<le> ?p"
      unfolding quantum_def ax by simp
    have "x < 2 powi (ilog2 x + 1)" using ilog2_bounds [OF x] by simp
    also have "\<dots> \<le> 2 powi (?p + 53)"
      using \<open>ilog2 x - 52 \<le> ?p\<close> by (intro power_int_increasing) simp_all
    also have "\<dots> = 2 powi ?p * 2 ^ 53" by (simp add: power_int_add)
    finally have "x / 2 powi ?p < 2 ^ 53" by (simp add: field_simps)
    then have "\<lfloor>x / 2 powi ?p\<rfloor> < 2 ^ 53"
      by (metis floor_less_iff of_int_numeral of_int_power)
    with round_even_bounds [of "x / 2 powi ?p"] have "round_even (x / 2 powi ?p) \<le> 2 ^ 53"
      by linarith
    then have "real_of_int (round_even (x / 2 powi ?p)) \<le> 2 ^ 53"
      by (metis of_int_le_iff of_int_numeral of_int_power)
    then have "fl x \<le> 2 ^ 53 * 2 powi ?p"
      unfolding flx by (simp add: mult_right_mono)
    also have "\<dots> = 2 powi (?p + 53)" by (simp add: power_int_add)
    also have "\<dots> \<le> 2 powi (?q + 52)"
      using lt by (intro power_int_increasing) simp_all
    also have "\<dots> = 2 ^ 52 * 2 powi ?q" by (simp add: power_int_add)
    also have "\<dots> \<le> fl y"
    proof -
      have "2 powi (?q + 52) \<le> y" using ilog2_bounds [OF y] by (simp add: qy)
      then have "2 ^ 52 \<le> y / 2 powi ?q" by (simp add: power_int_add field_simps)
      then have "round_even (of_int (2 ^ 52)) \<le> round_even (y / 2 powi ?q)"
        by (intro round_even_mono) simp
      then have "2 ^ 52 \<le> round_even (y / 2 powi ?q)"
        by (simp only: round_even_of_int)
      then have "2 ^ 52 \<le> real_of_int (round_even (y / 2 powi ?q))"
        by (metis of_int_le_iff of_int_numeral of_int_power)
      then show ?thesis unfolding fly by (simp add: mult_right_mono)
    qed
    finally show ?thesis .
  qed
qed

text \<open>The equations that evaluate a rounding on a numeral.\<close>

lemmas fl_eval = fl_def quantum_def ilog2_def halvings.simps doublings.simps round_even_def Let_def

lemma fl_one: "fl 1 = 1"
  by (simp add: fl_eval)

lemma below_threshold: "x \<le> 2 ^ 64 \<Longrightarrow> x < overflow_threshold"
proof -
  assume "x \<le> 2 ^ 64"
  also have "(2::real) ^ 64 < 2 ^ 1024"
    by (rule power_strict_increasing) simp_all
  finally show ?thesis
    by (simp only: overflow_threshold_def)
qed

lemma py_round_small:
  "- (2 ^ 64) \<le> fl x \<Longrightarrow> fl x \<le> 2 ^ 64 \<Longrightarrow> py_round x = Finite (fl x)"
proof -
  assume a: "- (2 ^ 64) \<le> fl x" "fl x \<le> 2 ^ 64"
  from a(2) have "fl x < overflow_threshold" by (rule below_threshold)
  moreover have "- fl x < overflow_threshold"
    using a(1) by (intro below_threshold) simp
  ultimately show ?thesis
    by (simp add: py_round_def Let_def)
qed

lemma py_round_Finite:
  "0 \<le> x \<Longrightarrow> x \<le> b \<Longrightarrow> fl b = b \<Longrightarrow> b < overflow_threshold \<Longrightarrow>
   py_round x = Finite (fl x) \<and> 0 \<le> fl x \<and> fl x \<le> b"
proof -
  assume a: "0 \<le> x" "x \<le> b" "fl b = b" "b < overflow_threshold"
  have "0 \<le> fl x" using a(1) by (rule fl_nonneg)
  moreover have "fl x \<le> b" using fl_mono [OF a(1,2)] a(3) by simp
  moreover from calculation a(4) have "fl x < overflow_threshold" "- overflow_threshold < fl x"
    by linarith+
  ultimately show ?thesis
    by (simp add: py_round_def Let_def)
qed


section \<open>calculate\_metrics in double precision\<close>

lemma calculate_metrics_float_inputs:
  "wet_weight_ton (calculate_metrics_float s) = wet_weight_ton s"
  "moisture_pct (calculate_metrics_float s) = moisture_pct s"
  "pb_grade_pct (calculate_metrics_float s) = pb_grade_pct s"
  "zn_grade_pct (calculate_metrics_float s) = zn_grade_pct s"
  "ag_grade_gpt (calculate_metrics_float s) = ag_grade_gpt s"
  by (simp_all add: calculate_metrics_float_def Let_def)

lemma calculate_metrics_float_derived:
  "dry_weight_ton (calculate_metrics_float s) =
     fmul (wet_weight_ton s) (fsub (Finite 1) (fdiv (moisture_pct s) 100))"
  "pb_ton (metal_content (calculate_metrics_float s)) =
     fmul (dry_weight_ton (calculate_metrics_float s)) (fdiv (pb_grade_pct s) 100)"
  "zn_ton (metal_content (calculate_metrics_float s)) =
     fmul (dry_weight_ton (calculate_metrics_float s)) (fdiv (zn_grade_pct s) 100)"
  "ag_kg (metal_content (calculate_metrics_float s)) =
     fdiv (fmul (dry_weight_ton (calculate_metrics_float s)) (ag_grade_gpt s)) 1000"
  by (simp_all add: calculate_metrics_float_def Let_def)


lemma dry_le_wet_float:
  assumes w: "wet_weight_ton s = Finite w" "is_float (Finite w)" "0 \<le> w"
    and m: "fle (Finite 0) (moisture_pct s)" "fle (moisture_pct s) (Finite 100)"
  shows "fle (dry_weight_ton (calculate_metrics_float s)) (wet_weight_ton s)"
proof -
  from m obtain mo where mo: "moisture_pct s = Finite mo" "0 \<le> mo" "mo \<le> 100"
    by (cases "moisture_pct s") simp_all
  have one: "fl 1 = 1" "(1::real) < overflow_threshold"
    by (simp_all add: fl_one below_threshold)
  have "0 \<le> mo / 100" "mo / 100 \<le> 1"
    using mo(2,3) by simp_all
  from py_round_Finite [OF this one]
  have g: "py_round (mo / 100) = Finite (fl (mo / 100))" "0 \<le> fl (mo / 100)"
    "fl (mo / 100) \<le> 1"
    by simp_all
  let ?g = "fl (mo / 100)"
  have "0 \<le> 1 - ?g" "1 - ?g \<le> 1"
    using g(2,3) by simp_all
  from py_round_Finite [OF this one]
  have h: "py_round (1 - ?g) = Finite (fl (1 - ?g))" "0 \<le> fl (1 - ?g)" "fl (1 - ?g) \<le> 1"
    by simp_all
  let ?h = "fl (1 - ?g)"
  from w(2) have fw: "fl w = w" "w < overflow_threshold"
    by auto
  have "0 \<le> w * ?h" "w * ?h \<le> w"
    using w(3) h(2,3) by (simp_all add: mult_left_le)
  from py_round_Finite [OF this fw]
  have d: "py_round (w * ?h) = Finite (fl (w * ?h))" "fl (w * ?h) \<le> w"
    by simp_all
  have "dry_weight_ton (calculate_metrics_float s) = Finite (fl (w * ?h))"
    by (simp add: calculate_metrics_float_derived w(1) mo(1) g(1) h(1) d(1))
  with d(2) show ?thesis
    by (simp add: w(1))
qed

lemma reference_dry:
  "fmul (Finite 128) (fsub (Finite 1) (fdiv (Finite 3) 100)) = py_round 124.16"
  by (simp add: py_round_small fl_eval)

lemma reference_pb: "fmul (py_round 124.16) (fdiv (Finite 3.75) 100) = py_round 4.656"
  by (simp add: py_round_small fl_eval)

lemma reference_ag:
  "fdiv (fmul (py_round 124.16) (Finite 161)) 1000 = py_round 19.989759999999997"
  by (simp add: py_round_small fl_eval)

lemma reference_ag_value:
  "py_round 19.989759999999997 = Finite (5626617230451602 * 2 powi (- 48))"
  "py_round 19.98976 = Finite (5626617230451603 * 2 powi (- 48))"
  by (simp_all add: py_round_small fl_eval)

lemma reference_ag_close:
  "\<bar>5626617230451602 * 2 powi (- 48) - 19.98976\<bar> < (1 / 10 ^ 14 :: real)"
  by simp

lemma infinite_dry: "fmul PosInf (fsub (Finite 1) (fdiv (Finite 100) 100)) = NaN"
  by (simp add: py_round_small fl_eval)

text \<open>
  C1, as stated, gives the reference input 19.98976 kg of silver, and bounds the dry
  weight by the wet weight for every wet weight that is not negative. In double
  precision the silver of the reference input is 19.989759999999997, the double next
  below the one that 19.98976 denotes, so \<^verbatim>\<open>ag_kg == 19.98976\<close> is false; and a wet
  weight of infinity with a moisture of 100 gives the dry weight NaN, which is not
  \<^verbatim>\<open><=\<close> the wet weight.
\<close>

theorem reference_silver_inexact:
  "ag_kg (metal_content (calculate_metrics_float example_raw_float))
     = py_round 19.989759999999997 \<and>
   py_round 19.989759999999997 \<noteq> py_round 19.98976 \<and>
   wet_weight_ton infinite_stream = PosInf \<and> fle (Finite 0) (wet_weight_ton infinite_stream) \<and>
   fle (Finite 0) (moisture_pct infinite_stream) \<and>
   fle (moisture_pct infinite_stream) (Finite 100) \<and>
   dry_weight_ton (calculate_metrics_float infinite_stream) = NaN \<and>
   \<not> fle (dry_weight_ton (calculate_metrics_float infinite_stream))
       (wet_weight_ton infinite_stream)"
proof -
  have i: "wet_weight_ton example_raw_float = Finite 128"
    "moisture_pct example_raw_float = Finite 3"
    "ag_grade_gpt example_raw_float = Finite 161"
    by (simp_all add: example_raw_float_def)
  have d: "dry_weight_ton (calculate_metrics_float example_raw_float) = py_round 124.16"
    unfolding calculate_metrics_float_derived(1) i by (rule reference_dry)
  have a: "ag_kg (metal_content (calculate_metrics_float example_raw_float))
     = py_round 19.989759999999997"
    unfolding calculate_metrics_float_derived(4) d i by (rule reference_ag)
  have n: "py_round 19.989759999999997 \<noteq> py_round 19.98976"
    unfolding reference_ag_value by simp
  have j: "wet_weight_ton infinite_stream = PosInf" "moisture_pct infinite_stream = Finite 100"
    by (simp_all add: infinite_stream_def)
  have e: "dry_weight_ton (calculate_metrics_float infinite_stream) = NaN"
    unfolding calculate_metrics_float_derived(1) j by (rule infinite_dry)
  show ?thesis
    using a n by (simp add: e j)
qed

text \<open>
  C1, amended. After \<^verbatim>\<open>calculate_metrics\<close> the four derived fields are the values of
  the source's four expressions, every operation rounded to the nearest double, over the
  measured fields of the stream, which the call leaves as they were; for a finite wet
  weight that is not negative and a moisture between 0 and 100 the dry weight is
  \<^verbatim>\<open><=\<close> the wet weight; and the reference input (wet 128, moisture 3, lead grade
  3.75, silver grade 161) gives the doubles that 124.16 and 4.656 denote as dry weight
  and lead, and 19.989759999999997 kg of silver, which is within \<open>1 / 10 ^ 14\<close> of
  19.98976.
\<close>

theorem calculate_metrics_float_correct:
  "dry_weight_ton (calculate_metrics_float s) =
     fmul (wet_weight_ton s) (fsub (Finite 1) (fdiv (moisture_pct s) 100)) \<and>
   pb_ton (metal_content (calculate_metrics_float s)) =
     fmul (dry_weight_ton (calculate_metrics_float s)) (fdiv (pb_grade_pct s) 100) \<and>
   zn_ton (metal_content (calculate_metrics_float s)) =
     fmul (dry_weight_ton (calculate_metrics_float s)) (fdiv (zn_grade_pct s) 100) \<and>
   ag_kg (metal_content (calculate_metrics_float s)) =
     fdiv (fmul (dry_weight_ton (calculate_metrics_float s)) (ag_grade_gpt s)) 1000 \<and>
   wet_weight_ton (calculate_metrics_float s) = wet_weight_ton s \<and>
   moisture_pct (calculate_metrics_float s) = moisture_pct s \<and>
   pb_grade_pct (calculate_metrics_float s) = pb_grade_pct s \<and>
   zn_grade_pct (calculate_metrics_float s) = zn_grade_pct s \<and>
   ag_grade_gpt (calculate_metrics_float s) = ag_grade_gpt s \<and>
   (\<forall>w. wet_weight_ton s = Finite w \<and> is_float (Finite w) \<and> 0 \<le> w \<and>
        fle (Finite 0) (moisture_pct s) \<and> fle (moisture_pct s) (Finite 100) \<longrightarrow>
        fle (dry_weight_ton (calculate_metrics_float s)) (wet_weight_ton s)) \<and>
   (wet_weight_ton s = Finite 128 \<and> moisture_pct s = Finite 3 \<and>
    pb_grade_pct s = Finite 3.75 \<and> ag_grade_gpt s = Finite 161 \<longrightarrow>
      dry_weight_ton (calculate_metrics_float s) = py_round 124.16 \<and>
      pb_ton (metal_content (calculate_metrics_float s)) = py_round 4.656 \<and>
      ag_kg (metal_content (calculate_metrics_float s)) = py_round 19.989759999999997 \<and>
      (\<exists>v. ag_kg (metal_content (calculate_metrics_float s)) = Finite v \<and>
           \<bar>v - 19.98976\<bar> < 1 / 10 ^ 14))"
proof -
  have ref: "dry_weight_ton (calculate_metrics_float s) = py_round 124.16 \<and>
      pb_ton (metal_content (calculate_metrics_float s)) = py_round 4.656 \<and>
      ag_kg (metal_content (calculate_metrics_float s)) = py_round 19.989759999999997 \<and>
      (\<exists>v. ag_kg (metal_content (calculate_metrics_float s)) = Finite v \<and>
           \<bar>v - 19.98976\<bar> < 1 / 10 ^ 14)"
    if r: "wet_weight_ton s = Finite 128" "moisture_pct s = Finite 3"
      "pb_grade_pct s = Finite 3.75" "ag_grade_gpt s = Finite 161"
  proof -
    have d: "dry_weight_ton (calculate_metrics_float s) = py_round 124.16"
      unfolding calculate_metrics_float_derived(1) r by (rule reference_dry)
    have p: "pb_ton (metal_content (calculate_metrics_float s)) = py_round 4.656"
      unfolding calculate_metrics_float_derived(2) d r by (rule reference_pb)
    have a: "ag_kg (metal_content (calculate_metrics_float s)) = py_round 19.989759999999997"
      unfolding calculate_metrics_float_derived(4) d r by (rule reference_ag)
    have "\<exists>v. ag_kg (metal_content (calculate_metrics_float s)) = Finite v \<and>
           \<bar>v - 19.98976\<bar> < 1 / 10 ^ 14"
      unfolding a reference_ag_value(1) using reference_ag_close by blast
    with d p a show ?thesis by blast
  qed
  have le: "\<forall>w. wet_weight_ton s = Finite w \<and> is_float (Finite w) \<and> 0 \<le> w \<and>
        fle (Finite 0) (moisture_pct s) \<and> fle (moisture_pct s) (Finite 100) \<longrightarrow>
        fle (dry_weight_ton (calculate_metrics_float s)) (wet_weight_ton s)"
    using dry_le_wet_float by blast
  have ref': "wet_weight_ton s = Finite 128 \<and> moisture_pct s = Finite 3 \<and>
    pb_grade_pct s = Finite 3.75 \<and> ag_grade_gpt s = Finite 161 \<longrightarrow>
      dry_weight_ton (calculate_metrics_float s) = py_round 124.16 \<and>
      pb_ton (metal_content (calculate_metrics_float s)) = py_round 4.656 \<and>
      ag_kg (metal_content (calculate_metrics_float s)) = py_round 19.989759999999997 \<and>
      (\<exists>v. ag_kg (metal_content (calculate_metrics_float s)) = Finite v \<and>
           \<bar>v - 19.98976\<bar> < 1 / 10 ^ 14)"
    using ref by blast
  show ?thesis
    by (intro conjI calculate_metrics_float_derived calculate_metrics_float_inputs le ref')
qed

theorem calculate_metrics_float_correct_witness:
  "wet_weight_ton example_raw_float = Finite 128 \<and> is_float (Finite 128) \<and>
   fle (Finite 0) (moisture_pct example_raw_float) \<and>
   fle (moisture_pct example_raw_float) (Finite 100) \<and>
   fle (dry_weight_ton (calculate_metrics_float example_raw_float))
     (wet_weight_ton example_raw_float) \<and>
   dry_weight_ton (calculate_metrics_float example_raw_float) = py_round 124.16 \<and>
   pb_ton (metal_content (calculate_metrics_float example_raw_float)) = py_round 4.656 \<and>
   ag_kg (metal_content (calculate_metrics_float example_raw_float))
     = py_round 19.989759999999997"
proof -
  have i: "wet_weight_ton example_raw_float = Finite 128"
    "moisture_pct example_raw_float = Finite 3"
    "pb_grade_pct example_raw_float = Finite 3.75"
    "ag_grade_gpt example_raw_float = Finite 161"
    by (simp_all add: example_raw_float_def)
  have f: "is_float (Finite 128)"
    by (simp add: fl_eval below_threshold)
  have m: "fle (Finite 0) (moisture_pct example_raw_float)"
    "fle (moisture_pct example_raw_float) (Finite 100)"
    by (simp_all add: i)
  note t = calculate_metrics_float_correct [of example_raw_float]
  from t i f m have "fle (dry_weight_ton (calculate_metrics_float example_raw_float))
     (wet_weight_ton example_raw_float)"
    by (metis order_refl zero_le_numeral)
  moreover from t i have
    "dry_weight_ton (calculate_metrics_float example_raw_float) = py_round 124.16"
    "pb_ton (metal_content (calculate_metrics_float example_raw_float)) = py_round 4.656"
    "ag_kg (metal_content (calculate_metrics_float example_raw_float))
       = py_round 19.989759999999997"
    by blast+
  ultimately show ?thesis
    using i(1) f m by blast
qed

section \<open>The performance pass in exact arithmetic\<close>

lemma calculate_metrics_inputs:
  "wet_weight_ton (calculate_metrics s) = wet_weight_ton s"
  "moisture_pct (calculate_metrics s) = moisture_pct s"
  "pb_grade_pct (calculate_metrics s) = pb_grade_pct s"
  "zn_grade_pct (calculate_metrics s) = zn_grade_pct s"
  "ag_grade_gpt (calculate_metrics s) = ag_grade_gpt s"
  by (simp_all add: calculate_metrics_def Let_def)

lemma calculate_metrics_derived:
  "dry_weight_ton (calculate_metrics s) = wet_weight_ton s * (1 - moisture_pct s / 100)"
  "pb_ton (metal_content (calculate_metrics s)) =
     wet_weight_ton s * (1 - moisture_pct s / 100) * (pb_grade_pct s / 100)"
  "zn_ton (metal_content (calculate_metrics s)) =
     wet_weight_ton s * (1 - moisture_pct s / 100) * (zn_grade_pct s / 100)"
  "ag_kg (metal_content (calculate_metrics s)) =
     wet_weight_ton s * (1 - moisture_pct s / 100) * ag_grade_gpt s / 1000"
  by (simp_all add: calculate_metrics_def Let_def)


lemma calculate_metrics_idem: "calculate_metrics (calculate_metrics s) = calculate_metrics s"
  by (simp add: calculate_metrics_def Let_def)

lemma calculate_performance_eq:
  "calculate_performance e =
     e\<lparr>raw_ore := calculate_metrics (raw_ore e),
       concentrate := calculate_metrics (concentrate e),
       performance := performance_pass (calculate_metrics (raw_ore e))
          (calculate_metrics (concentrate e)) (performance e)\<rparr>"
  by (simp add: calculate_performance_def performance_pass_def Let_def)

lemma performance_pass_idem:
  "performance_pass r c (performance_pass r c p) = performance_pass r c p"
  by (simp add: performance_pass_def)

lemma calculate_performance_fields:
  "raw_ore (calculate_performance e) = calculate_metrics (raw_ore e)"
  "concentrate (calculate_performance e) = calculate_metrics (concentrate e)"
  "tailings (calculate_performance e) = tailings e"
  "shift_name (calculate_performance e) = shift_name e"
  "performance (calculate_performance e) =
     performance_pass (calculate_metrics (raw_ore e)) (calculate_metrics (concentrate e))
       (performance e)"
  by (simp_all add: calculate_performance_eq)

text \<open>
  C2. For an entry whose performance fields are at their defaults, each of the five
  metrics after \<^verbatim>\<open>calculate_performance\<close> is its formula when its guards hold and 0
  when they do not. The guards are strict: the raw-ore dry weight for the yield, the
  raw-ore dry weight and the raw-ore metal content for a recovery, the raw-ore dry weight
  and the raw-ore lead grade for the enrichment ratio. With a raw-ore dry weight of 0
  all five stay 0. The streams named are those of the entry after the call.
\<close>

theorem calculate_performance_guards:
  "performance e = default_performance \<Longrightarrow>
   (let e' = calculate_performance e; raw = raw_ore e'; conc = concentrate e';
        perf = performance e'
    in yield_pct perf =
         (if dry_weight_ton raw > 0 then dry_weight_ton conc / dry_weight_ton raw * 100
          else 0) \<and>
       recovery_pb_pct perf =
         (if dry_weight_ton raw > 0 \<and> pb_ton (metal_content raw) > 0
          then pb_ton (metal_content conc) / pb_ton (metal_content raw) * 100 else 0) \<and>
       recovery_zn_pct perf =
         (if dry_weight_ton raw > 0 \<and> zn_ton (metal_content raw) > 0
          then zn_ton (metal_content conc) / zn_ton (metal_content raw) * 100 else 0) \<and>
       recovery_ag_pct perf =
         (if dry_weight_ton raw > 0 \<and> ag_kg (metal_content raw) > 0
          then ag_kg (metal_content conc) / ag_kg (metal_content raw) * 100 else 0) \<and>
       enrichment_ratio_pb perf =
         (if dry_weight_ton raw > 0 \<and> pb_grade_pct raw > 0
          then pb_grade_pct conc / pb_grade_pct raw else 0) \<and>
       (dry_weight_ton raw = 0 \<longrightarrow> perf = default_performance))"
  by (simp add: Let_def calculate_performance_fields performance_pass_def
      default_performance_def)

theorem calculate_performance_guards_witness:
  "performance example_entry = default_performance \<and>
   yield_pct (performance (calculate_performance example_entry)) = 6.899896 / 124.16 * 100 \<and>
   recovery_pb_pct (performance (calculate_performance example_entry))
     = 4.5035621192 / 4.656 * 100 \<and>
   recovery_zn_pct (performance (calculate_performance example_entry)) = 0 \<and>
   enrichment_ratio_pb (performance (calculate_performance example_entry)) = 65.27 / 3.75 \<and>
   performance idle_entry = default_performance \<and>
   dry_weight_ton (raw_ore (calculate_performance idle_entry)) = 0 \<and>
   performance (calculate_performance idle_entry) = default_performance"
  using calculate_performance_guards [of example_entry]
    calculate_performance_guards [of idle_entry]
  by (simp add: Let_def calculate_performance_fields calculate_metrics_derived
      calculate_metrics_inputs example_entry_def idle_entry_def example_raw_def
      example_conc_def)




text \<open>
  C9. Calling \<^verbatim>\<open>calculate_performance\<close> a second time changes nothing: the entry
  after two calls is the entry after one, in every field.
\<close>

theorem calculate_performance_idempotent:
  "calculate_performance (calculate_performance e) = calculate_performance e"
  by (simp add: calculate_performance_eq calculate_metrics_idem performance_pass_idem)

theorem calculate_performance_idempotent_witness:
  "calculate_performance (calculate_performance example_entry)
     = calculate_performance example_entry \<and>
   recovery_pb_pct (performance (calculate_performance (calculate_performance example_entry)))
     = 4.5035621192 / 4.656 * 100"
  using calculate_performance_idempotent [of example_entry]
  by (simp add: calculate_performance_fields calculate_metrics_derived
      calculate_metrics_inputs performance_pass_def example_entry_def example_raw_def
      example_conc_def)

section \<open>The date resolver\<close>

subsection \<open>Substrings and paths\<close>

text \<open>
  \<open>contains\<close> is the contiguous-substring relation, and for a path that ends in a
  directory name, a slash and a file name, \<open>basename\<close> is the file name and \<open>basename\<close>
  of \<open>dirname\<close> the directory name.
\<close>

lemma take_eq_iff_prefix: "take (length sub) s = sub \<longleftrightarrow> (\<exists>ss. s = sub @ ss)"
  by (metis append_eq_conv_conj append_take_drop_id)

lemma contains_iff: "contains sub s \<longleftrightarrow> (\<exists>ps ss. s = ps @ sub @ ss)"
proof (induction s)
  case Nil
  then show ?case by auto
next
  case (Cons c cs)
  have "(\<exists>ps ss. c # cs = ps @ sub @ ss) \<longleftrightarrow>
        (\<exists>ss. c # cs = sub @ ss) \<or> (\<exists>ps ss. cs = ps @ sub @ ss)"
  proof
    assume "\<exists>ps ss. c # cs = ps @ sub @ ss"
    then obtain ps ss where d: "c # cs = ps @ sub @ ss" by blast
    show "(\<exists>ss. c # cs = sub @ ss) \<or> (\<exists>ps ss. cs = ps @ sub @ ss)"
    proof (cases ps)
      case Nil
      with d show ?thesis by auto
    next
      case (Cons p ps')
      with d have "cs = ps' @ sub @ ss" by simp
      then show ?thesis by blast
    qed
  next
    assume "(\<exists>ss. c # cs = sub @ ss) \<or> (\<exists>ps ss. cs = ps @ sub @ ss)"
    then show "\<exists>ps ss. c # cs = ps @ sub @ ss"
    proof
      assume "\<exists>ss. c # cs = sub @ ss"
      then obtain ss where "c # cs = [] @ sub @ ss" by auto
      then show ?thesis by blast
    next
      assume "\<exists>ps ss. cs = ps @ sub @ ss"
      then obtain ps ss where "c # cs = (c # ps) @ sub @ ss" by auto
      then show ?thesis by blast
    qed
  qed
  with Cons.IH show ?case
    by (simp only: contains.simps take_eq_iff_prefix)
qed


lemma basename_append:
  assumes "slash \<notin> set f" "pre = [] \<or> last pre = slash"
  shows "basename (pre @ f) = f"
proof (cases "pre = []")
  case True
  have tw: "takeWhile (\<lambda>c. c \<noteq> slash) (rev f) = rev f"
    using assms(1) by (auto simp: takeWhile_eq_all_conv)
  show ?thesis
    unfolding basename_def True append_Nil tw by (rule rev_rev_ident)
next
  case False
  with assms(2) obtain pre' where pre: "pre = pre' @ [slash]"
    by (metis append_butlast_last_id)
  have "takeWhile (\<lambda>c. c \<noteq> slash) (rev f @ slash # rev pre') = rev f"
    using assms(1) by (auto simp: takeWhile_tail)
  then show ?thesis
    by (simp add: basename_def pre)
qed

lemma dirname_append:
  assumes "slash \<notin> set f" "slash \<notin> set parent" "parent \<noteq> []"
  shows "dirname (pre @ parent @ slash # f) = pre @ parent"
proof -
  let ?p = "pre @ parent @ slash # f"
  have "dropWhile (\<lambda>c. c \<noteq> slash) (rev f @ slash # rev parent @ rev pre)
      = slash # rev parent @ rev pre"
    using assms(1) by (auto simp: dropWhile_append3)
  then have head: "rev (dropWhile (\<lambda>c. c \<noteq> slash) (rev ?p)) = pre @ parent @ [slash]"
    by simp
  obtain x where x: "x \<in> set parent" "x \<noteq> slash"
    using assms(2,3) by (metis last_in_set)
  then have ne: "pre @ parent @ [slash] \<noteq> replicate (length (pre @ parent @ [slash])) slash"
    by (metis Un_iff in_set_replicate set_append)
  have "rev parent \<noteq> []" "hd (rev parent) \<noteq> slash"
    using assms(2,3) by (simp_all add: hd_rev) (metis last_in_set)
  then have "dropWhile (\<lambda>c. c = slash) (rev parent @ rev pre) = rev parent @ rev pre"
    by (cases "rev parent") simp_all
  then have strip: "rev (dropWhile (\<lambda>c. c = slash) (rev (pre @ parent @ [slash]))) = pre @ parent"
    by simp
  show ?thesis
    unfolding dirname_def head Let_def using ne strip by simp
qed

lemma path_parts:
  assumes "slash \<notin> set f" "slash \<notin> set parent" "parent \<noteq> []"
    and "pre = [] \<or> last pre = slash"
  shows "basename (pre @ parent @ slash # f) = f"
    and "basename (dirname (pre @ parent @ slash # f)) = parent"
proof -
  have "basename ((pre @ parent @ [slash]) @ f) = f"
    using assms(1) by (intro basename_append) simp_all
  then show "basename (pre @ parent @ slash # f) = f"
    by simp
  show "basename (dirname (pre @ parent @ slash # f)) = parent"
    using assms by (simp add: dirname_append basename_append)
qed

subsection \<open>Digits\<close>

lemma ascii_digit_isdecimal: "ascii_digit c \<Longrightarrow> isdecimal nd c"
  by (simp add: isdecimal_def decimal_def)

lemma isdecimal_cases:
  assumes "isdecimal nd c"
  shows "ascii_digit c \<or> 128 \<le> c"
proof (cases "ascii_digit c")
  case True
  then show ?thesis by simp
next
  case False
  with assms obtain z zs where "filter (\<lambda>z. 128 \<le> z \<and> z \<le> c \<and> c < z + 10) nd = z # zs"
    by (auto simp: isdecimal_def decimal_def split: list.splits)
  then have "z \<in> set (filter (\<lambda>z. 128 \<le> z \<and> z \<le> c \<and> c < z + 10) nd)"
    by simp
  then show ?thesis by simp
qed

lemma dot_not_digit: "\<not> isdecimal nd dot"
  using isdecimal_cases [of nd dot] by (auto simp: ascii_digit_def)

lemma dash_not_digit: "\<not> isdecimal nd dash"
  using isdecimal_cases [of nd dash] by (auto simp: ascii_digit_def)

subsection \<open>What the two searches find\<close>

lemma match_long_eq:
  "match_long nd s = (if run8_at nd s 0 then Some (groups8 s) else None)"
  by (simp add: match_long_def run8_at_def groups8_def)

lemma run8_at_Cons: "run8_at nd (c # cs) (Suc k) = run8_at nd cs k"
  by (auto simp: run8_at_def)

lemma search_long_Some:
  "search_long nd s = Some g \<longleftrightarrow>
     (\<exists>k. run8_at nd s k \<and> (\<forall>i<k. \<not> run8_at nd s i) \<and> g = groups8 (drop k s))"
proof (induction s)
  case Nil
  then show ?case by (simp add: run8_at_def)
next
  case (Cons c cs)
  show ?case
  proof (cases "run8_at nd (c # cs) 0")
    case True
    have "(\<exists>k. run8_at nd (c # cs) k \<and> (\<forall>i<k. \<not> run8_at nd (c # cs) i) \<and>
             g = groups8 (drop k (c # cs))) \<longleftrightarrow> g = groups8 (c # cs)"
    proof
      assume "\<exists>k. run8_at nd (c # cs) k \<and> (\<forall>i<k. \<not> run8_at nd (c # cs) i) \<and>
             g = groups8 (drop k (c # cs))"
      then obtain k where k: "\<forall>i<k. \<not> run8_at nd (c # cs) i" "g = groups8 (drop k (c # cs))"
        by blast
      from k(1) True have "k = 0" by (cases k) auto
      with k(2) show "g = groups8 (c # cs)" by simp
    next
      assume "g = groups8 (c # cs)"
      with True show "\<exists>k. run8_at nd (c # cs) k \<and> (\<forall>i<k. \<not> run8_at nd (c # cs) i) \<and>
             g = groups8 (drop k (c # cs))"
        by (intro exI [of _ 0]) simp
    qed
    with True show ?thesis by (auto simp: match_long_eq)
  next
    case False
    have "(\<exists>k. run8_at nd (c # cs) k \<and> (\<forall>i<k. \<not> run8_at nd (c # cs) i) \<and>
             g = groups8 (drop k (c # cs))) \<longleftrightarrow>
          (\<exists>k. run8_at nd cs k \<and> (\<forall>i<k. \<not> run8_at nd cs i) \<and> g = groups8 (drop k cs))"
      (is "?L \<longleftrightarrow> ?R")
    proof
      assume ?L
      then obtain k where k: "run8_at nd (c # cs) k" "\<forall>i<k. \<not> run8_at nd (c # cs) i"
        "g = groups8 (drop k (c # cs))" by blast
      from k(1) False obtain j where j: "k = Suc j" by (cases k) auto
      have "\<forall>i<j. \<not> run8_at nd cs i"
      proof (intro allI impI)
        fix i assume "i < j"
        then have "Suc i < k" using j by simp
        with k(2) have "\<not> run8_at nd (c # cs) (Suc i)" by blast
        then show "\<not> run8_at nd cs i" by (simp add: run8_at_Cons)
      qed
      with k j show ?R by (intro exI [of _ j]) (simp add: run8_at_Cons)
    next
      assume ?R
      then obtain j where j: "run8_at nd cs j" "\<forall>i<j. \<not> run8_at nd cs i"
        "g = groups8 (drop j cs)" by blast
      have "\<forall>i<Suc j. \<not> run8_at nd (c # cs) i"
      proof (intro allI impI)
        fix i assume i: "i < Suc j"
        show "\<not> run8_at nd (c # cs) i"
        proof (cases i)
          case 0 with False show ?thesis by simp
        next
          case (Suc i')
          with i j(2) show ?thesis by (simp add: run8_at_Cons)
        qed
      qed
      with j show ?L by (intro exI [of _ "Suc j"]) (simp add: run8_at_Cons)
    qed
    with False Cons.IH show ?thesis by (simp add: match_long_eq)
  qed
qed

lemma search_long_None: "search_long nd s = None \<longleftrightarrow> (\<forall>k. \<not> run8_at nd s k)"
proof (induction s)
  case Nil
  then show ?case by (simp add: run8_at_def)
next
  case (Cons c cs)
  have "(\<forall>k. \<not> run8_at nd (c # cs) k) \<longleftrightarrow>
        \<not> run8_at nd (c # cs) 0 \<and> (\<forall>k. \<not> run8_at nd cs k)"
    by (metis run8_at_Cons not0_implies_Suc)
  with Cons.IH show ?case by (simp add: match_long_eq)
qed

lemma take8_groups:
  "take 8 t = take 4 t @ take 2 (drop 4 t) @ take 2 (drop 6 t)"
proof -
  have "take (4 + (2 + 2)) t = take 4 t @ take (2 + 2) (drop 4 t)"
    by (rule take_add)
  also have "take (2 + 2) (drop 4 t) = take 2 (drop 4 t) @ take 2 (drop 2 (drop 4 t))"
    by (rule take_add)
  finally show ?thesis by simp
qed

lemma run8_at_groups:
  assumes "run8_at nd s k" "groups8 (drop k s) = (y, m, d)"
  shows "s = take k s @ y @ m @ d @ drop (k + 8) s \<and> length (take k s) = k \<and>
         length y = 4 \<and> length m = 2 \<and> length d = 2 \<and> list_all (isdecimal nd) (y @ m @ d)"
proof -
  let ?t = "drop k s"
  from assms(1) have len: "8 \<le> length ?t" and k: "k \<le> length s"
    and dig: "list_all (isdecimal nd) (take 8 ?t)"
    by (auto simp: run8_at_def)
  from assms(2) have g: "y = take 4 ?t" "m = take 2 (drop 4 ?t)" "d = take 2 (drop 6 ?t)"
    by (simp_all add: groups8_def)
  have w: "take 8 ?t = y @ m @ d"
    unfolding g by (rule take8_groups)
  have "s = take k s @ take 8 ?t @ drop 8 ?t"
    by (metis append_take_drop_id)
  then have "s = take k s @ y @ m @ d @ drop (k + 8) s"
    by (simp add: w add.commute)
  moreover have "length y = 4" "length m = 2" "length d = 2"
    using len unfolding g by simp_all
  moreover have "list_all (isdecimal nd) (y @ m @ d)"
    using dig by (simp only: w)
  ultimately show ?thesis using k by simp
qed

lemma run8_at_append:
  "length w = 8 \<Longrightarrow> list_all (isdecimal nd) w \<Longrightarrow> run8_at nd (p @ w @ q) (length p)"
  by (simp add: run8_at_def)

lemma takeWhile_digits:
  "list_all (isdecimal nd) mo \<Longrightarrow> \<not> isdecimal nd c \<Longrightarrow>
   takeWhile (isdecimal nd) (mo @ c # r) = mo \<and> dropWhile (isdecimal nd) (mo @ c # r) = c # r"
  by (induction mo) simp_all

lemma takeWhile_digits_prefix:
  "list_all (isdecimal nd) da \<Longrightarrow> takeWhile (isdecimal nd) (da @ r) = da @ takeWhile (isdecimal nd) r"
  by (induction da) simp_all

lemma match_short_SomeD:
  assumes L: "match_short nd s = Some (mo, da)"
  shows "\<exists>r. s = mo @ dot # da @ r \<and> mo \<noteq> [] \<and> list_all (isdecimal nd) mo \<and>
          da \<noteq> [] \<and> list_all (isdecimal nd) da \<and> (r = [] \<or> \<not> isdecimal nd (hd r))"
proof -
  have "dropWhile (isdecimal nd) s \<noteq> []"
  proof
    assume "dropWhile (isdecimal nd) s = []"
    then have "match_short nd s = None"
      unfolding match_short_def Let_def by (simp only: list.case)
    with L show False by simp
  qed
  then obtain c rest where d: "dropWhile (isdecimal nd) s = c # rest"
    by (meson neq_Nil_conv)
  from L have "(if takeWhile (isdecimal nd) s \<noteq> [] \<and> c = dot \<and> takeWhile (isdecimal nd) rest \<noteq> []
        then Some (takeWhile (isdecimal nd) s, takeWhile (isdecimal nd) rest) else None) = Some (mo, da)"
    unfolding match_short_def Let_def d by (simp only: list.case)
  then have cond: "takeWhile (isdecimal nd) s \<noteq> [] \<and> c = dot \<and> takeWhile (isdecimal nd) rest \<noteq> []"
    and res: "Some (takeWhile (isdecimal nd) s, takeWhile (isdecimal nd) rest) = Some (mo, da)"
    by (simp_all only: simp_thms option.distinct split: if_splits)
  from res have mo: "takeWhile (isdecimal nd) s = mo" and da: "takeWhile (isdecimal nd) rest = da"
    by (simp_all only: option.inject prod.inject)
  let ?r = "dropWhile (isdecimal nd) rest"
  have "s = takeWhile (isdecimal nd) s @ dropWhile (isdecimal nd) s"
    by (simp only: takeWhile_dropWhile_id)
  also have "\<dots> = mo @ dot # rest"
    using cond by (simp only: d mo)
  also have "rest = takeWhile (isdecimal nd) rest @ ?r"
    by (simp only: takeWhile_dropWhile_id)
  finally have s: "s = mo @ dot # da @ ?r"
    by (simp only: da)
  have tail: "?r = [] \<or> \<not> isdecimal nd (hd ?r)"
    using hd_dropWhile [of "isdecimal nd" rest] by blast
  have "list_all (isdecimal nd) (takeWhile (isdecimal nd) s)"
    "list_all (isdecimal nd) (takeWhile (isdecimal nd) rest)"
    by (auto simp: list_all_iff dest: set_takeWhileD)
  then have digs: "list_all (isdecimal nd) mo" "list_all (isdecimal nd) da"
    by (simp_all only: mo da)
  from cond have ne: "mo \<noteq> []" "da \<noteq> []"
    unfolding mo da by blast+
  show ?thesis
  proof (intro exI conjI)
    show "s = mo @ dot # da @ ?r" by (rule s)
    show "mo \<noteq> []" by (rule ne(1))
    show "list_all (isdecimal nd) mo" by (rule digs(1))
    show "da \<noteq> []" by (rule ne(2))
    show "list_all (isdecimal nd) da" by (rule digs(2))
    show "?r = [] \<or> \<not> isdecimal nd (hd ?r)" by (rule tail)
  qed
qed

lemma match_short_SomeI:
  assumes r: "s = mo @ dot # da @ r" "mo \<noteq> []" "list_all (isdecimal nd) mo"
    "da \<noteq> []" "list_all (isdecimal nd) da" "r = [] \<or> \<not> isdecimal nd (hd r)"
  shows "match_short nd s = Some (mo, da)"
proof -
  have 1: "takeWhile (isdecimal nd) s = mo" "dropWhile (isdecimal nd) s = dot # da @ r"
    unfolding r(1) using takeWhile_digits [OF r(3) dot_not_digit] by simp_all
  have "takeWhile (isdecimal nd) r = []"
    using r(6) by (cases r) auto
  then have 2: "takeWhile (isdecimal nd) (da @ r) = da"
    by (simp add: takeWhile_digits_prefix [OF r(5)])
  show ?thesis
    unfolding match_short_def Let_def 1 by (simp add: 2 r(2) r(4))
qed

lemma match_short_Some:
  "match_short nd s = Some (mo, da) \<longleftrightarrow>
     (\<exists>r. s = mo @ dot # da @ r \<and> mo \<noteq> [] \<and> list_all (isdecimal nd) mo \<and>
          da \<noteq> [] \<and> list_all (isdecimal nd) da \<and> (r = [] \<or> \<not> isdecimal nd (hd r)))"
  using match_short_SomeD match_short_SomeI by blast

lemma short_at_Cons: "short_at nd (c # cs) (Suc k) = short_at nd cs k"
  by (simp add: short_at_def)

lemma search_short_Some:
  "search_short nd s = Some g \<longleftrightarrow>
     (\<exists>k. match_short nd (drop k s) = Some g \<and> (\<forall>i<k. \<not> short_at nd s i))"
proof (induction s)
  case Nil
  then show ?case by (simp add: match_short_def)
next
  case (Cons c cs)
  show ?case
  proof (cases "match_short nd (c # cs)")
    case (Some g')
    then have s0: "short_at nd (c # cs) 0" by (simp add: short_at_def)
    have "(\<exists>k. match_short nd (drop k (c # cs)) = Some g \<and> (\<forall>i<k. \<not> short_at nd (c # cs) i))
          \<longleftrightarrow> g = g'"
    proof
      assume "\<exists>k. match_short nd (drop k (c # cs)) = Some g \<and> (\<forall>i<k. \<not> short_at nd (c # cs) i)"
      then obtain k where k: "match_short nd (drop k (c # cs)) = Some g"
        "\<forall>i<k. \<not> short_at nd (c # cs) i" by blast
      from k(2) s0 have "k = 0" by (cases k) auto
      with k(1) Some show "g = g'" by simp
    next
      assume "g = g'"
      with Some show "\<exists>k. match_short nd (drop k (c # cs)) = Some g \<and> (\<forall>i<k. \<not> short_at nd (c # cs) i)"
        by (intro exI [of _ 0]) simp
    qed
    with Some show ?thesis by auto
  next
    case None
    then have s0: "\<not> short_at nd (c # cs) 0" by (simp add: short_at_def)
    have "(\<exists>k. match_short nd (drop k (c # cs)) = Some g \<and> (\<forall>i<k. \<not> short_at nd (c # cs) i))
          \<longleftrightarrow> (\<exists>k. match_short nd (drop k cs) = Some g \<and> (\<forall>i<k. \<not> short_at nd cs i))"
      (is "?L \<longleftrightarrow> ?R")
    proof
      assume ?L
      then obtain k where k: "match_short nd (drop k (c # cs)) = Some g"
        "\<forall>i<k. \<not> short_at nd (c # cs) i" by blast
      from k(1) None obtain j where j: "k = Suc j" by (cases k) auto
      have "\<forall>i<j. \<not> short_at nd cs i"
      proof (intro allI impI)
        fix i assume "i < j"
        then have "Suc i < k" using j by simp
        with k(2) have "\<not> short_at nd (c # cs) (Suc i)" by blast
        then show "\<not> short_at nd cs i" by (simp add: short_at_Cons)
      qed
      with k(1) j show ?R by (intro exI [of _ j]) simp
    next
      assume ?R
      then obtain j where j: "match_short nd (drop j cs) = Some g" "\<forall>i<j. \<not> short_at nd cs i"
        by blast
      have "\<forall>i<Suc j. \<not> short_at nd (c # cs) i"
      proof (intro allI impI)
        fix i assume i: "i < Suc j"
        show "\<not> short_at nd (c # cs) i"
        proof (cases i)
          case 0 with s0 show ?thesis by simp
        next
          case (Suc i')
          with i j(2) show ?thesis by (simp add: short_at_Cons)
        qed
      qed
      with j(1) show ?L by (intro exI [of _ "Suc j"]) simp
    qed
    with None Cons.IH show ?thesis by simp
  qed
qed

lemma search_short_None: "search_short nd s = None \<longleftrightarrow> (\<forall>k. \<not> short_at nd s k)"
proof (induction s)
  case Nil
  then show ?case by (simp add: short_at_def match_short_def)
next
  case (Cons c cs)
  have *: "(\<forall>k. \<not> short_at nd (c # cs) k) \<longleftrightarrow>
        \<not> short_at nd (c # cs) 0 \<and> (\<forall>k. \<not> short_at nd cs k)"
    by (metis short_at_Cons not0_implies_Suc)
  show ?case
  proof (cases "match_short nd (c # cs)")
    case None
    then have "\<not> short_at nd (c # cs) 0" by (simp add: short_at_def)
    with None Cons.IH * show ?thesis by simp
  next
    case (Some g)
    then have "short_at nd (c # cs) 0" by (simp add: short_at_def)
    with Some * show ?thesis by simp
  qed
qed

subsection \<open>Formatting\<close>

lemma py_str_ascii: "list_all ascii_digit (py_str n)"
proof (induction n rule: py_str.induct)
  case (1 n)
  show ?case
  proof (cases "n < 10")
    case True
    then show ?thesis by (simp add: py_str.simps [of n] ascii_digit_def)
  next
    case False
    have "n mod 10 < 10" by simp
    then have "ascii_digit (48 + n mod 10)" unfolding ascii_digit_def by linarith
    with False 1 show ?thesis by (simp add: py_str.simps [of n])
  qed
qed

lemma py_str_length: "length (py_str n) = (if n < 10 then 1 else Suc (length (py_str (n div 10))))"
  by (simp add: py_str.simps [of n])

lemma py_str_nonempty: "1 \<le> length (py_str n)"
  by (simp add: py_str_length [of n])

lemma py_str_length_le2: "length (py_str n) \<le> 2 \<longleftrightarrow> n < 100"
proof (cases "n < 10")
  case True
  then show ?thesis by (simp add: py_str_length [of n])
next
  case False
  show ?thesis
  proof (cases "n < 100")
    case True
    then have "n div 10 < 10" by simp
    with False True show ?thesis
      by (simp add: py_str_length [of n] py_str_length [of "n div 10"])
  next
    case False
    then have "\<not> n div 10 < 10" by simp
    with False py_str_nonempty [of "n div 10 div 10"] show ?thesis
      by (auto simp: py_str_length [of n] py_str_length [of "n div 10"])
  qed
qed

lemma format_02d_ascii: "list_all ascii_digit (format_02d n)"
proof -
  have "list_all ascii_digit (replicate (2 - length (py_str n)) 48)"
    by (simp add: list_all_iff ascii_digit_def)
  then show ?thesis
    by (simp add: format_02d_def py_str_ascii)
qed

lemma format_02d_length: "2 \<le> length (format_02d n)"
  by (simp add: format_02d_def)

lemma format_02d_length2: "length (format_02d n) = 2 \<longleftrightarrow> n < 100"
  using py_str_length_le2 [of n] py_str_nonempty [of n]
  by (auto simp: format_02d_def)

lemma py_str_year:
  "py_str (if b then 2026 else 2025) = (if b then ascii ''2026'' else ascii ''2025'')"
  by (simp add: py_str.simps ascii_def)

lemma canonical_date_422:
  assumes "length y = 4" "length m = 2" "length d = 2"
  shows "canonical_date (y @ dash # m @ dash # d) \<longleftrightarrow> list_all ascii_digit (y @ m @ d)"
  using assms by (auto simp: canonical_date_def nth_append)

lemma canonical_date_length: "canonical_date s \<Longrightarrow> length s = 10"
  by (simp add: canonical_date_def)

subsection \<open>The three outcomes of get\_date\_from\_filename\<close>

lemma py_int_digits:
  "s \<noteq> [] \<Longrightarrow> list_all (isdecimal nd) s \<Longrightarrow> py_int nd s = Inr (digits_value nd s)"
  by (simp add: py_int_def)

lemma search_short_digits:
  assumes "search_short nd s = Some (month, day)"
  shows "month \<noteq> [] \<and> list_all (isdecimal nd) month \<and> day \<noteq> [] \<and> list_all (isdecimal nd) day"
proof -
  from assms obtain k where "match_short nd (drop k s) = Some (month, day)"
    unfolding search_short_Some by blast
  then show ?thesis
    using match_short_SomeD by blast
qed

lemma get_date_long:
  assumes "search_long nd (basename filepath) = Some (y, m, d)"
  shows "get_date_from_filename nd filepath =
     Inr (Some ((if y = ascii ''2006'' \<and> contains (ascii ''2026'') (basename (dirname filepath))
                 then ascii ''2026'' else y) @ dash # m @ dash # d))"
  using assms by (simp add: get_date_from_filename_def Let_def)

lemma get_date_short:
  assumes "search_long nd (basename filepath) = None"
    and "search_short nd (basename filepath) = Some (month, day)"
  shows "get_date_from_filename nd filepath =
     Inr (Some (py_str (if contains (ascii ''2026'') (basename (dirname filepath))
                        then 2026 else 2025)
                @ dash # format_02d (digits_value nd month)
                @ dash # format_02d (digits_value nd day)))"
proof -
  from search_short_digits [OF assms(2)]
  have "py_int nd month = Inr (digits_value nd month)" "py_int nd day = Inr (digits_value nd day)"
    by (simp_all add: py_int_digits)
  with assms show ?thesis
    by (simp add: get_date_from_filename_def Let_def)
qed

lemma get_date_none:
  assumes "search_long nd (basename filepath) = None"
    and "search_short nd (basename filepath) = None"
  shows "get_date_from_filename nd filepath = Inr None"
  using assms by (simp add: get_date_from_filename_def Let_def)

lemma get_date_never_raises: "get_date_from_filename nd filepath \<noteq> Inl e"
proof (cases "search_long nd (basename filepath)")
  case (Some g)
  then show ?thesis
    by (cases g) (simp add: get_date_long)
next
  case None
  then show ?thesis
  proof (cases "search_short nd (basename filepath)")
    case None
    with \<open>search_long nd (basename filepath) = None\<close> show ?thesis
      by (simp add: get_date_none)
  next
    case (Some g)
    with \<open>search_long nd (basename filepath) = None\<close> show ?thesis
      by (cases g) (simp add: get_date_short)
  qed
qed

text \<open>
  C4. A file name that holds eight consecutive decimal digits resolves to the date built
  from the first such run (no run of eight digits starts further left): its first four
  digits, a hyphen, the next two, a hyphen, the last two. The one correction: a year
  group \<^verbatim>\<open>2006\<close> becomes \<^verbatim>\<open>2026\<close> when the name of the parent directory contains
  \<^verbatim>\<open>2026\<close>.
\<close>

theorem full_date_resolved:
  assumes "basename filepath = pre @ ds @ post" "length ds = 8" "list_all (isdecimal nd) ds"
  shows "\<exists>pre' y m d post'.
           basename filepath = pre' @ y @ m @ d @ post' \<and> length pre' \<le> length pre \<and>
           length y = 4 \<and> length m = 2 \<and> length d = 2 \<and>
           list_all (isdecimal nd) (y @ m @ d) \<and>
           get_date_from_filename nd filepath =
             Inr (Some ((if y = ascii ''2006'' \<and>
                            contains (ascii ''2026'') (basename (dirname filepath))
                         then ascii ''2026'' else y) @ dash # m @ dash # d))"
proof -
  let ?s = "basename filepath"
  have run: "run8_at nd ?s (length pre)"
    unfolding assms(1) using assms(2,3) by (rule run8_at_append)
  then have "search_long nd ?s \<noteq> None"
    unfolding search_long_None by blast
  then obtain g where g: "search_long nd ?s = Some g"
    by blast
  obtain y m d where ymd: "g = (y, m, d)"
    by (cases g)
  from g obtain k where k: "run8_at nd ?s k" "\<forall>i<k. \<not> run8_at nd ?s i"
    "g = groups8 (drop k ?s)"
    unfolding search_long_Some by blast
  from k(2) run have le: "k \<le> length pre"
    by (meson not_le)
  from k(3) ymd have "groups8 (drop k ?s) = (y, m, d)"
    by simp
  from run8_at_groups [OF k(1) this]
  have dec: "?s = take k ?s @ y @ m @ d @ drop (k + 8) ?s" "length (take k ?s) = k"
    "length y = 4" "length m = 2" "length d = 2" "list_all (isdecimal nd) (y @ m @ d)"
    by blast+
  from g ymd have res: "get_date_from_filename nd filepath =
     Inr (Some ((if y = ascii ''2006'' \<and> contains (ascii ''2026'') (basename (dirname filepath))
                 then ascii ''2026'' else y) @ dash # m @ dash # d))"
    by (simp add: get_date_long)
  show ?thesis
  proof (intro exI conjI)
    show "?s = take k ?s @ y @ m @ d @ drop (k + 8) ?s" by (rule dec(1))
    show "length (take k ?s) \<le> length pre" using dec(2) le by simp
    show "length y = 4" by (rule dec(3))
    show "length m = 2" by (rule dec(4))
    show "length d = 2" by (rule dec(5))
    show "list_all (isdecimal nd) (y @ m @ d)" by (rule dec(6))
    show "get_date_from_filename nd filepath =
     Inr (Some ((if y = ascii ''2006'' \<and> contains (ascii ''2026'') (basename (dirname filepath))
                 then ascii ''2026'' else y) @ dash # m @ dash # d))" by (rule res)
  qed
qed

subsection \<open>The example paths\<close>

lemmas path_defs = path_2026_def path_2006_def path_short_def path_2024_def path_dotted_def

lemma basename_examples:
  "basename path_2026 = hesuanbiao @ ascii ''20260127'' @ ascii ''.xlsx''"
  "basename path_2006 = hesuanbiao @ ascii ''20060127'' @ ascii ''.xlsx''"
  "basename path_short = hesuanbiao @ ascii ''8'' @ dot # ascii ''19'' @ ascii ''.xlsx''"
  "basename path_2024 = hesuanbiao @ ascii ''8'' @ dot # ascii ''19'' @ ascii ''.xlsx''"
  "basename path_dotted = hesuanbiao @ ascii ''2025'' @ dot # ascii ''8'' @ ascii ''.19.xlsx''"
  by (simp_all add: path_defs ascii_def hesuanbiao_def basename_def)

lemma parent_examples:
  "basename (dirname path_2026) = ascii ''2026''"
  "basename (dirname path_2006) = ascii ''2026''"
  "basename (dirname path_short) = ascii ''reports''"
  "basename (dirname path_2024) = ascii ''2024''"
  "basename (dirname path_dotted) = ascii ''reports''"
  by (simp_all add: path_defs ascii_def hesuanbiao_def basename_def dirname_def)

lemma contains_examples:
  "contains (ascii ''2026'') (ascii ''2026'')"
  "\<not> contains (ascii ''2026'') (ascii ''reports'')"
  "\<not> contains (ascii ''2026'') (ascii ''2024'')"
  "contains (ascii ''2024'') (ascii ''2024'')"
  by (simp_all add: ascii_def)

lemmas digit_defs = isdecimal_def decimal_def ascii_digit_def

lemma search_long_examples:
  "search_long [] (hesuanbiao @ ascii ''20260127'' @ ascii ''.xlsx'')
     = Some (ascii ''2026'', ascii ''01'', ascii ''27'')"
  "search_long [] (hesuanbiao @ ascii ''20060127'' @ ascii ''.xlsx'')
     = Some (ascii ''2006'', ascii ''01'', ascii ''27'')"
  "search_long [] (hesuanbiao @ ascii ''8'' @ dot # ascii ''19'' @ ascii ''.xlsx'') = None"
  "search_long [] (hesuanbiao @ ascii ''2025'' @ dot # ascii ''8'' @ ascii ''.19.xlsx'') = None"
  by (simp_all add: ascii_def hesuanbiao_def match_long_def digit_defs)

lemma search_short_examples:
  "search_short [] (hesuanbiao @ ascii ''8'' @ dot # ascii ''19'' @ ascii ''.xlsx'')
     = Some (ascii ''8'', ascii ''19'')"
  "search_short [] (hesuanbiao @ ascii ''2025'' @ dot # ascii ''8'' @ ascii ''.19.xlsx'')
     = Some (ascii ''2025'', ascii ''8'')"
  by (simp_all add: ascii_def hesuanbiao_def match_short_def digit_defs)

lemma digits_value_examples:
  "digits_value [] (ascii ''8'') = 8"
  "digits_value [] (ascii ''19'') = 19"
  "digits_value [] (ascii ''2025'') = 2025"
  by (simp_all add: ascii_def digits_value_def digit_defs)

lemma format_examples:
  "py_str 2025 = ascii ''2025''"
  "format_02d 8 = ascii ''08''"
  "format_02d 19 = ascii ''19''"
  "format_02d 2025 = ascii ''2025''"
  by (simp_all add: ascii_def format_02d_def py_str.simps)

lemma get_date_examples:
  "get_date_from_filename [] path_2026 = Inr (Some (ascii ''2026-01-27''))"
  "get_date_from_filename [] path_2006 = Inr (Some (ascii ''2026-01-27''))"
  "get_date_from_filename [] path_short = Inr (Some (ascii ''2025-08-19''))"
  "get_date_from_filename [] path_2024 = Inr (Some (ascii ''2025-08-19''))"
  "get_date_from_filename [] path_dotted = Inr (Some (ascii ''2025-2025-08''))"
proof -
  show "get_date_from_filename [] path_2026 = Inr (Some (ascii ''2026-01-27''))"
    by (simp add: get_date_long [where y = "ascii ''2026''" and m = "ascii ''01''" and d = "ascii ''27''"]
        basename_examples search_long_examples) (simp add: ascii_def)
  show "get_date_from_filename [] path_2006 = Inr (Some (ascii ''2026-01-27''))"
    by (simp add: get_date_long [where y = "ascii ''2006''" and m = "ascii ''01''" and d = "ascii ''27''"]
        basename_examples parent_examples contains_examples search_long_examples)
       (simp add: ascii_def)
  show "get_date_from_filename [] path_short = Inr (Some (ascii ''2025-08-19''))"
    by (simp add: get_date_short [where month = "ascii ''8''" and day = "ascii ''19''"]
        basename_examples parent_examples contains_examples search_long_examples
        search_short_examples digits_value_examples format_examples)
       (simp add: ascii_def)
  show "get_date_from_filename [] path_2024 = Inr (Some (ascii ''2025-08-19''))"
    by (simp add: get_date_short [where month = "ascii ''8''" and day = "ascii ''19''"]
        basename_examples parent_examples contains_examples search_long_examples
        search_short_examples digits_value_examples format_examples)
       (simp add: ascii_def)
  show "get_date_from_filename [] path_dotted = Inr (Some (ascii ''2025-2025-08''))"
    by (simp add: get_date_short [where month = "ascii ''2025''" and day = "ascii ''8''"]
        basename_examples parent_examples contains_examples search_long_examples
        search_short_examples digits_value_examples format_examples)
       (simp add: ascii_def)
qed

text \<open>
  The file \<^verbatim>\<open>20260127.xlsx\<close> with the report prefix, inside a directory named
  \<^verbatim>\<open>2026\<close>, resolves to \<^verbatim>\<open>2026-01-27\<close>, and so does \<^verbatim>\<open>20060127.xlsx\<close> there.
\<close>

theorem full_date_resolved_witness:
  "basename path_2006 = hesuanbiao @ ascii ''20060127'' @ ascii ''.xlsx'' \<and>
   length (ascii ''20060127'') = 8 \<and> list_all (isdecimal []) (ascii ''20060127'') \<and>
   contains (ascii ''2026'') (basename (dirname path_2006)) \<and>
   (\<exists>pre' y m d post'.
      basename path_2006 = pre' @ y @ m @ d @ post' \<and> length pre' \<le> length hesuanbiao \<and>
      length y = 4 \<and> length m = 2 \<and> length d = 2 \<and> list_all (isdecimal []) (y @ m @ d) \<and>
      get_date_from_filename [] path_2006 =
        Inr (Some ((if y = ascii ''2006'' \<and>
                       contains (ascii ''2026'') (basename (dirname path_2006))
                    then ascii ''2026'' else y) @ dash # m @ dash # d))) \<and>
   get_date_from_filename [] path_2006 = Inr (Some (ascii ''2026-01-27'')) \<and>
   basename path_2026 = hesuanbiao @ ascii ''20260127'' @ ascii ''.xlsx'' \<and>
   contains (ascii ''2026'') (basename (dirname path_2026)) \<and>
   get_date_from_filename [] path_2026 = Inr (Some (ascii ''2026-01-27''))"
proof -
  have h: "basename path_2006 = hesuanbiao @ ascii ''20060127'' @ ascii ''.xlsx''"
    "length (ascii ''20060127'') = 8" "list_all (isdecimal []) (ascii ''20060127'')"
    by (simp_all add: basename_examples) (simp_all add: ascii_def digit_defs)
  note full_date_resolved [OF h]
  then show ?thesis
    using h by (simp only: simp_thms parent_examples contains_examples basename_examples
        get_date_examples)
qed

text \<open>
  C7, amended. A file name with no run of eight digits that holds a short date (digits,
  a dot, digits) resolves to the year, a hyphen, the month and a hyphen, the day, month and
  day being the numbers of the first such match, each written with at least two digits.
  The year is 2026 when the name of the parent directory contains \<^verbatim>\<open>2026\<close> and 2025
  otherwise: no other year in the directory name is looked at.
\<close>

theorem short_date_resolved:
  assumes "\<forall>p w q. basename filepath = p @ w @ q \<and> length w = 8
             \<longrightarrow> \<not> list_all (isdecimal nd) w"
    and "basename filepath = pre @ mo @ dot # da @ post"
    and "mo \<noteq> []" "list_all (isdecimal nd) mo" "da \<noteq> []" "list_all (isdecimal nd) da"
  shows "\<exists>pre' month day post'.
           basename filepath = pre' @ month @ dot # day @ post' \<and>
           length pre' \<le> length pre \<and>
           month \<noteq> [] \<and> list_all (isdecimal nd) month \<and>
           day \<noteq> [] \<and> list_all (isdecimal nd) day \<and>
           (post' = [] \<or> \<not> isdecimal nd (hd post')) \<and>
           get_date_from_filename nd filepath =
             Inr (Some (py_str (if contains (ascii ''2026'') (basename (dirname filepath))
                                then 2026 else 2025)
                        @ dash # format_02d (digits_value nd month)
                        @ dash # format_02d (digits_value nd day)))"
proof -
  let ?s = "basename filepath"
  have no_long: "search_long nd ?s = None"
    unfolding search_long_None
  proof (intro allI notI)
    fix k assume r: "run8_at nd ?s k"
    obtain y m d where g: "groups8 (drop k ?s) = (y, m, d)"
      by (cases "groups8 (drop k ?s)")
    from run8_at_groups [OF r g]
    have "?s = take k ?s @ (y @ m @ d) @ drop (k + 8) ?s" "length (y @ m @ d) = 8"
      "list_all (isdecimal nd) (y @ m @ d)"
      by simp_all
    with assms(1) show False by blast
  qed
  let ?day = "da @ takeWhile (isdecimal nd) post"
  let ?r = "dropWhile (isdecimal nd) post"
  have "drop (length pre) ?s = mo @ dot # ?day @ ?r"
    unfolding assms(2) by simp
  moreover have "?r = [] \<or> \<not> isdecimal nd (hd ?r)"
    using hd_dropWhile [of "isdecimal nd" post] by blast
  moreover have "?day \<noteq> []" "list_all (isdecimal nd) ?day"
    using assms(5,6) by (auto simp: list_all_iff dest: set_takeWhileD)
  ultimately have "match_short nd (drop (length pre) ?s) = Some (mo, ?day)"
    using assms(3,4) by (intro match_short_SomeI [where r = ?r]) simp_all
  then have at: "short_at nd ?s (length pre)"
    by (simp add: short_at_def)
  then have "search_short nd ?s \<noteq> None"
    unfolding search_short_None by blast
  then obtain g where g: "search_short nd ?s = Some g"
    by blast
  obtain month day where md: "g = (month, day)"
    by (cases g)
  from g md obtain k where k: "match_short nd (drop k ?s) = Some (month, day)"
    "\<forall>i<k. \<not> short_at nd ?s i"
    unfolding search_short_Some by blast
  from k(2) at have le: "k \<le> length pre"
    by (meson not_le)
  from match_short_SomeD [OF k(1)] obtain r where r: "drop k ?s = month @ dot # day @ r"
    "month \<noteq> []" "list_all (isdecimal nd) month" "day \<noteq> []" "list_all (isdecimal nd) day"
    "r = [] \<or> \<not> isdecimal nd (hd r)"
    by blast
  have "drop k ?s \<noteq> []"
    unfolding r(1) using r(2) by simp
  then have klen: "k \<le> length ?s"
    by simp
  have "?s = take k ?s @ drop k ?s"
    by simp
  then have dec: "?s = take k ?s @ month @ dot # day @ r"
    by (simp only: r(1))
  from no_long g md have res: "get_date_from_filename nd filepath =
     Inr (Some (py_str (if contains (ascii ''2026'') (basename (dirname filepath))
                        then 2026 else 2025)
                @ dash # format_02d (digits_value nd month)
                @ dash # format_02d (digits_value nd day)))"
    by (simp add: get_date_short)
  show ?thesis
  proof (intro exI conjI)
    show "?s = take k ?s @ month @ dot # day @ r" by (rule dec)
    show "length (take k ?s) \<le> length pre" using klen le by simp
    show "month \<noteq> []" by (rule r(2))
    show "list_all (isdecimal nd) month" by (rule r(3))
    show "day \<noteq> []" by (rule r(4))
    show "list_all (isdecimal nd) day" by (rule r(5))
    show "r = [] \<or> \<not> isdecimal nd (hd r)" by (rule r(6))
    show "get_date_from_filename nd filepath =
     Inr (Some (py_str (if contains (ascii ''2026'') (basename (dirname filepath))
                        then 2026 else 2025)
                @ dash # format_02d (digits_value nd month)
                @ dash # format_02d (digits_value nd day)))" by (rule res)
  qed
qed

lemma search_long_None_iff:
  "search_long nd s = None \<longleftrightarrow>
     (\<forall>p w q. s = p @ w @ q \<and> length w = 8 \<longrightarrow> \<not> list_all (isdecimal nd) w)"
proof
  assume n: "search_long nd s = None"
  show "\<forall>p w q. s = p @ w @ q \<and> length w = 8 \<longrightarrow> \<not> list_all (isdecimal nd) w"
  proof (intro allI impI notI)
    fix p w q assume "s = p @ w @ q \<and> length w = 8" "list_all (isdecimal nd) w"
    then have "run8_at nd s (length p)"
      using run8_at_append [of w nd p q] by simp
    with n show False
      unfolding search_long_None by blast
  qed
next
  assume a: "\<forall>p w q. s = p @ w @ q \<and> length w = 8 \<longrightarrow> \<not> list_all (isdecimal nd) w"
  show "search_long nd s = None"
    unfolding search_long_None
  proof (intro allI notI)
    fix k assume r: "run8_at nd s k"
    obtain y m d where g: "groups8 (drop k s) = (y, m, d)"
      by (cases "groups8 (drop k s)")
    from run8_at_groups [OF r g]
    have "s = take k s @ (y @ m @ d) @ drop (k + 8) s" "length (y @ m @ d) = 8"
      "list_all (isdecimal nd) (y @ m @ d)"
      by simp_all
    with a show False by blast
  qed
qed

lemma get_date_2026_short:
  "get_date_from_filename [] path_2026_short = Inr (Some (ascii ''2026-01-05''))"
proof -
  have "basename path_2026_short = hesuanbiao @ ascii ''1.05.xlsx''"
    "basename (dirname path_2026_short) = ascii ''2026''"
    by (simp_all add: path_2026_short_def ascii_def hesuanbiao_def basename_def dirname_def)
  moreover have "search_long [] (hesuanbiao @ ascii ''1.05.xlsx'') = None"
    by (simp add: ascii_def hesuanbiao_def match_long_def digit_defs)
  moreover have "search_short [] (hesuanbiao @ ascii ''1.05.xlsx'') = Some (ascii ''1'', ascii ''05'')"
    by (simp add: ascii_def hesuanbiao_def match_short_def digit_defs)
  moreover have "digits_value [] (ascii ''1'') = 1" "digits_value [] (ascii ''05'') = 5"
    by (simp_all add: ascii_def digits_value_def digit_defs)
  moreover have "py_str 2026 = ascii ''2026''" "format_02d 1 = ascii ''01''"
    "format_02d 5 = ascii ''05''"
    by (simp_all add: ascii_def format_02d_def py_str.simps)
  ultimately show ?thesis
    by (simp add: get_date_short [where month = "ascii ''1''" and day = "ascii ''05''"]
        contains_examples) (simp add: ascii_def)
qed

theorem short_date_resolved_witness:
  "search_long [] (basename path_short) = None \<and>
   basename path_short = hesuanbiao @ ascii ''8'' @ dot # ascii ''19'' @ ascii ''.xlsx'' \<and>
   \<not> contains (ascii ''2026'') (basename (dirname path_short)) \<and>
   (\<exists>pre' month day post'.
      basename path_short = pre' @ month @ dot # day @ post' \<and>
      length pre' \<le> length hesuanbiao \<and>
      month \<noteq> [] \<and> list_all (isdecimal []) month \<and>
      day \<noteq> [] \<and> list_all (isdecimal []) day \<and>
      (post' = [] \<or> \<not> isdecimal [] (hd post')) \<and>
      get_date_from_filename [] path_short =
        Inr (Some (py_str (if contains (ascii ''2026'') (basename (dirname path_short))
                           then 2026 else 2025)
                   @ dash # format_02d (digits_value [] month)
                   @ dash # format_02d (digits_value [] day)))) \<and>
   get_date_from_filename [] path_short = Inr (Some (ascii ''2025-08-19'')) \<and>
   contains (ascii ''2026'') (basename (dirname path_2026_short)) \<and>
   get_date_from_filename [] path_2026_short = Inr (Some (ascii ''2026-01-05''))"
proof -
  have n: "search_long [] (basename path_short) = None"
    by (simp add: basename_examples search_long_examples)
  have b: "basename path_short = hesuanbiao @ ascii ''8'' @ dot # ascii ''19'' @ ascii ''.xlsx''"
    by (rule basename_examples)
  have d: "ascii ''8'' \<noteq> []" "list_all (isdecimal []) (ascii ''8'')"
    "ascii ''19'' \<noteq> []" "list_all (isdecimal []) (ascii ''19'')"
    by (simp_all add: ascii_def digit_defs)
  have p: "basename (dirname path_2026_short) = ascii ''2026''"
    by (simp add: path_2026_short_def ascii_def hesuanbiao_def basename_def dirname_def)
  note short_date_resolved [OF n [unfolded search_long_None_iff] b d]
  then show ?thesis
    using n by (simp only: simp_thms parent_examples contains_examples p
        basename_examples get_date_examples get_date_2026_short)
qed

text \<open>
  C7, as stated, lets any four-digit year of the parent directory override the default.
  A directory named \<^verbatim>\<open>2024\<close> does not: the date is still of 2025.
\<close>

theorem other_year_ignored:
  "contains (ascii ''2024'') (basename (dirname path_2024)) \<and>
   search_long [] (basename path_2024) = None \<and>
   basename path_2024 = hesuanbiao @ ascii ''8'' @ dot # ascii ''19'' @ ascii ''.xlsx'' \<and>
   get_date_from_filename [] path_2024 = Inr (Some (ascii ''2025-08-19'')) \<and>
   get_date_from_filename [] path_2024 \<noteq> Inr (Some (ascii ''2024-08-19''))"
proof -
  have "ascii ''2025-08-19'' \<noteq> ascii ''2024-08-19''"
    by (simp add: ascii_def)
  then show ?thesis
    by (simp add: parent_examples contains_examples basename_examples search_long_examples
        get_date_examples)
qed

text \<open>
  C6, amended. When \<^verbatim>\<open>get_date_from_filename\<close> returns a string, the string is a
  canonical date (four ASCII digits, a hyphen, two ASCII digits, a hyphen, two ASCII
  digits) exactly in these cases: the file name has a run of eight digits and the eight
  matched digits are ASCII digits; or it has none and the month and the day of its short
  date are both numbers below 100.
\<close>

theorem date_canonical_iff:
  assumes "get_date_from_filename nd filepath = Inr (Some s)"
  shows "canonical_date s \<longleftrightarrow>
     (case search_long nd (basename filepath) of
        Some (y, m, d) \<Rightarrow> list_all ascii_digit (y @ m @ d)
      | None \<Rightarrow>
          (case search_short nd (basename filepath) of
             Some (month, day) \<Rightarrow> digits_value nd month < 100 \<and> digits_value nd day < 100
           | None \<Rightarrow> False))"
proof (cases "search_long nd (basename filepath)")
  case (Some g)
  obtain y m d where g: "g = (y, m, d)"
    by (cases g)
  let ?y = "if y = ascii ''2006'' \<and> contains (ascii ''2026'') (basename (dirname filepath))
            then ascii ''2026'' else y"
  from Some g obtain k where k: "run8_at nd (basename filepath) k"
    "groups8 (drop k (basename filepath)) = (y, m, d)"
    unfolding search_long_Some by auto
  from run8_at_groups [OF k] have len: "length y = 4" "length m = 2" "length d = 2"
    by blast+
  have ylen: "length ?y = 4"
    using len(1) by (simp add: ascii_def)
  have ydig: "list_all ascii_digit ?y \<longleftrightarrow> list_all ascii_digit y"
    by (simp add: ascii_def ascii_digit_def)
  from Some g assms have "s = ?y @ dash # m @ dash # d"
    by (simp add: get_date_long)
  then have "canonical_date s \<longleftrightarrow> list_all ascii_digit (?y @ m @ d)"
    using canonical_date_422 [OF ylen len(2,3)] by simp
  also have "\<dots> \<longleftrightarrow> list_all ascii_digit (y @ m @ d)"
    using ydig by simp
  finally show ?thesis
    using Some g by simp
next
  case None
  show ?thesis
  proof (cases "search_short nd (basename filepath)")
    case n: None
    with None assms show ?thesis
      by (simp add: get_date_none)
  next
    case (Some g)
    obtain month day where g: "g = (month, day)"
      by (cases g)
    let ?y = "py_str (if contains (ascii ''2026'') (basename (dirname filepath))
                      then 2026 else 2025)"
    let ?m = "format_02d (digits_value nd month)"
    let ?d = "format_02d (digits_value nd day)"
    have ylen: "length ?y = 4"
      by (simp add: py_str_year ascii_def)
    have dig: "list_all ascii_digit (?y @ ?m @ ?d)"
      by (simp add: py_str_ascii format_02d_ascii)
    from None Some g assms have s: "s = ?y @ dash # ?m @ dash # ?d"
      by (simp add: get_date_short)
    have "canonical_date s \<longleftrightarrow> length ?m = 2 \<and> length ?d = 2"
    proof
      assume "canonical_date s"
      then have "length s = 10"
        by (rule canonical_date_length)
      then have "length ?m + length ?d = 4"
        unfolding s using ylen by simp
      with format_02d_length [of "digits_value nd month"]
        format_02d_length [of "digits_value nd day"]
      show "length ?m = 2 \<and> length ?d = 2"
        by linarith
    next
      assume l: "length ?m = 2 \<and> length ?d = 2"
      then have "canonical_date (?y @ dash # ?m @ dash # ?d)"
        using canonical_date_422 [OF ylen, of ?m ?d] dig by blast
      then show "canonical_date s"
        by (simp only: s)
    qed
    then show ?thesis
      using None Some g by (simp add: format_02d_length2)
  qed
qed

theorem date_canonical_iff_witness:
  "get_date_from_filename [] path_short = Inr (Some (ascii ''2025-08-19'')) \<and>
   canonical_date (ascii ''2025-08-19'') \<and>
   get_date_from_filename [] path_2006 = Inr (Some (ascii ''2026-01-27'')) \<and>
   canonical_date (ascii ''2026-01-27'')"
proof -
  have "canonical_date (ascii ''2025-08-19'')"
    using date_canonical_iff [OF get_date_examples(3)]
    by (simp add: basename_examples search_long_examples search_short_examples
        digits_value_examples)
  moreover have "list_all ascii_digit (ascii ''2006'' @ ascii ''01'' @ ascii ''27'')"
    by (simp add: ascii_def ascii_digit_def)
  then have "canonical_date (ascii ''2026-01-27'')"
    using date_canonical_iff [OF get_date_examples(2)]
    by (simp add: basename_examples search_long_examples)
  ultimately show ?thesis
    by (simp add: get_date_examples)
qed

text \<open>
  C6, as stated, fails on a file name with a dotted full date: \<^verbatim>\<open>2025.8.19\<close> is read as
  month 2025 and day 8.
\<close>

theorem dotted_date_not_canonical:
  "get_date_from_filename [] path_dotted = Inr (Some (ascii ''2025-2025-08'')) \<and>
   \<not> canonical_date (ascii ''2025-2025-08'')"
  by (simp add: get_date_examples) (simp add: canonical_date_def ascii_def)

section \<open>The extractors\<close>

subsection \<open>The guarded read\<close>

lemma get_cell_value: "get_cell df r c = Inr (cell_value df r c)"
proof (cases "iloc df r c")
  case (Inl e)
  then show ?thesis by (simp add: get_cell_def cell_value_def)
next
  case (Inr val)
  then show ?thesis by (cases val) (simp_all add: get_cell_def cell_value_def)
qed

lemma get_cell_guarded:
  "(\<exists>x. get_cell df r c = Inr x) \<and>
   (iloc df r c = Inl e \<longrightarrow> get_cell df r c = Inr (Finite 0)) \<and>
   (iloc df r c = Inr Blank \<longrightarrow> get_cell df r c = Inr (Finite 0)) \<and>
   (iloc df r c = Inr Null \<longrightarrow> get_cell df r c = Inr (Finite 0)) \<and>
   (iloc df r c = Inr Uncoercible \<longrightarrow> get_cell df r c = Inr (Finite 0)) \<and>
   (iloc df r c = Inr (Coercible x) \<longrightarrow> get_cell df r c = Inr x)"
  by (simp add: get_cell_value cell_value_def)

subsection \<open>The loop\<close>

lemma process_shift_events:
  "process_shift post df date_str sh = Inr (shift_events post df date_str sh)"
  by (simp add: process_shift_def shift_events_def payload_of_def get_cell_value try_bind_def
      Let_def)

lemma run_shifts_events:
  "run_shifts post df date_str shs = (concat (map (shift_events post df date_str) shs), None)"
  by (induction shs) (simp_all add: process_shift_events)

lemma parse_file_events:
  "get_date_from_filename nd filepath = Inr (Some date_str) \<Longrightarrow>
   parse_file nd post filepath (Inr df) =
     Log_processing filepath date_str # concat (map (shift_events post df date_str) SHIFTS)"
  by (simp add: parse_file_def run_shifts_events)

lemma requests_append: "requests (xs @ ys) = requests xs @ requests ys"
  by (induction xs rule: requests.induct) simp_all

lemma requests_shift_events:
  "requests (shift_events post df date_str sh) =
     (if le_zero (cell_value df 4 (col_start sh)) then [] else [payload_of df date_str sh])"
  by (simp add: shift_events_def split: option.splits)

lemma requests_parse_file:
  assumes "get_date_from_filename nd filepath = Inr (Some date_str)"
  shows "requests (parse_file nd post filepath (Inr df)) =
     concat (map (\<lambda>sh. if le_zero (cell_value df 4 (col_start sh)) then []
                        else [payload_of df date_str sh]) SHIFTS)"
  by (simp add: parse_file_events [OF assms] SHIFTS_def requests_append requests_shift_events)

lemma le_zero_iff: "v \<noteq> NaN \<Longrightarrow> le_zero v \<longleftrightarrow> \<not> gt_zero v"
  by (cases v) auto

lemma SHIFTS_names:
  "sh \<in> set SHIFTS \<Longrightarrow> sh' \<in> set SHIFTS \<Longrightarrow> name sh = name sh' \<Longrightarrow> sh = sh'"
  by (auto simp: SHIFTS_def)

lemma requests_parse_file_set:
  assumes "get_date_from_filename nd filepath = Inr (Some date_str)"
  shows "set (requests (parse_file nd post filepath (Inr df))) =
     {payload_of df date_str sh | sh.
        sh \<in> set SHIFTS \<and> \<not> le_zero (cell_value df 4 (col_start sh))}"
  by (auto simp: requests_parse_file [OF assms])

lemma block_emitted_iff:
  assumes "get_date_from_filename nd filepath = Inr (Some date_str)"
    and "shift \<in> set SHIFTS"
  shows "(\<exists>p \<in> set (requests (parse_file nd post filepath (Inr df))). shiftType p = name shift)
         \<longleftrightarrow> \<not> le_zero (cell_value df 4 (col_start shift))"
proof
  assume "\<exists>p \<in> set (requests (parse_file nd post filepath (Inr df))). shiftType p = name shift"
  then obtain sh where sh: "sh \<in> set SHIFTS" "\<not> le_zero (cell_value df 4 (col_start sh))"
    "shiftType (payload_of df date_str sh) = name shift"
    unfolding requests_parse_file_set [OF assms(1)] by blast
  from sh(3) have "name sh = name shift"
    by (simp add: payload_of_def)
  with sh(1) assms(2) have "sh = shift"
    by (rule SHIFTS_names)
  with sh(2) show "\<not> le_zero (cell_value df 4 (col_start shift))"
    by simp
next
  assume "\<not> le_zero (cell_value df 4 (col_start shift))"
  with assms(2) have "payload_of df date_str shift
      \<in> set (requests (parse_file nd post filepath (Inr df)))"
    unfolding requests_parse_file_set [OF assms(1)] by blast
  moreover have "shiftType (payload_of df date_str shift) = name shift"
    by (simp add: payload_of_def)
  ultimately show "\<exists>p \<in> set (requests (parse_file nd post filepath (Inr df))).
      shiftType p = name shift"
    by blast
qed

text \<open>
  The presence gate on a lead grade that is a number. Let the date of the file be
  resolved and let the lead-grade cell of a shift block (row 4, column \<open>col_start\<close>)
  evaluate to a value other than NaN. Then \<^verbatim>\<open>parse_file\<close> sends a payload for the block
  exactly when the value is above 0; with a value of 0 or below the block prints and
  sends nothing; with a value above 0 the payload carries the date, the label of the
  shift and that lead grade. This holds for each of the three blocks whatever the other
  two hold: a skipped block does not end the loop.
\<close>

lemma presence_gate:
  assumes "get_date_from_filename nd filepath = Inr (Some date_str)"
    and "shift \<in> set SHIFTS"
    and "get_cell df 4 (col_start shift) = Inr v"
    and "v \<noteq> NaN"
  shows "((\<exists>p \<in> set (requests (parse_file nd post filepath (Inr df))).
            shiftType p = name shift) \<longleftrightarrow> gt_zero v) \<and>
         (le_zero v \<longrightarrow> process_shift post df date_str shift = Inr []) \<and>
         (gt_zero v \<longrightarrow>
            (\<exists>p rest. process_shift post df date_str shift
                = Inr (Log_uploading (name shift) # Request p # rest) \<and>
              shiftDate p = date_str \<and> shiftType p = name shift \<and>
              pbGrade (rawOre p) = v))"
proof -
  from assms(3) have v: "cell_value df 4 (col_start shift) = v"
    by (simp add: get_cell_value)
  have "(\<exists>p \<in> set (requests (parse_file nd post filepath (Inr df))).
            shiftType p = name shift) \<longleftrightarrow> gt_zero v"
    using block_emitted_iff [OF assms(1,2), of post df] le_zero_iff [OF assms(4)]
    by (simp add: v)
  moreover have "le_zero v \<longrightarrow> process_shift post df date_str shift = Inr []"
    by (simp add: process_shift_events shift_events_def v)
  moreover have "gt_zero v \<longrightarrow>
            (\<exists>p rest. process_shift post df date_str shift
                = Inr (Log_uploading (name shift) # Request p # rest) \<and>
              shiftDate p = date_str \<and> shiftType p = name shift \<and>
              pbGrade (rawOre p) = v)"
    using le_zero_iff [OF assms(4)]
    by (simp add: process_shift_events shift_events_def v payload_of_def)
  ultimately show ?thesis
    by blast
qed

subsection \<open>The example frames\<close>

lemma example_grid_rows:
  "length example_grid = 8"
  "example_grid ! 4 = [label, num 0, num 0, label, num 0,
              num 3.75, num 161, label, num 8, Blank, Blank, label, Blank]"
  "example_grid ! 5 = [label, num 0, num 0, label, num 0,
              num 65.27, num 3352, label, num 128, Blank, Blank, label, Blank]"
  "example_grid ! 6 = [label, num 0, num 0, label, num 0,
              num 0.13, num 8, label, num 70, Blank, Blank, label, Blank]"
  "example_grid ! 7 = [label, Blank, Blank, label, num 0,
              Blank, Blank, label, num 3, Blank, Blank, label, Blank]"
  by (simp_all add: example_grid_def nth_append)

lemma example_lead_cells:
  "cell_value example_grid 4 1 = Finite 0"
  "cell_value example_grid 4 5 = Finite 3.75"
  "cell_value example_grid 4 9 = Finite 0"
  by (simp_all add: cell_value_def iloc_def position_def example_grid_rows num_def)

lemma example_block_cells:
  "cell_value example_grid 4 6 = Finite 161"
  "cell_value example_grid 4 8 = Finite 8"
  "cell_value example_grid 5 5 = Finite 65.27"
  "cell_value example_grid 5 6 = Finite 3352"
  "cell_value example_grid 5 8 = Finite 128"
  "cell_value example_grid 6 5 = Finite 0.13"
  "cell_value example_grid 6 6 = Finite 8"
  "cell_value example_grid 6 8 = Finite 70"
  "cell_value example_grid 7 8 = Finite 3"
  by (simp_all add: cell_value_def iloc_def position_def example_grid_rows num_def)

lemma parse_file_example:
  "parse_file [] accepted path_short (Inr example_grid) =
     [Log_processing path_short (ascii ''2025-08-19''),
      Log_uploading [0x4E59, 0x73ED], Request example_payload]"
  by (simp add: parse_file_events [OF get_date_examples(3)] SHIFTS_def shift_events_def
      payload_of_def example_lead_cells example_block_cells accepted_def example_payload_def)

lemma nan_grid_cells:
  "cell_value nan_grid 4 1 = NaN"
  "r \<in> {4, 5, 6, 7} \<Longrightarrow> c \<in> {2, 4, 5, 6, 8, 9, 10, 12} \<Longrightarrow> cell_value nan_grid r c = Finite 0"
  "r \<in> {5, 6, 7} \<Longrightarrow> cell_value nan_grid r 1 = Finite 0"
  by (auto simp: cell_value_def iloc_def position_def nan_grid_def nth_append label_def)

text \<open>
  C3. A payload is to be sent for a block exactly when its lead grade is above 0: the
  source's comment on the gate reads \<^verbatim>\<open>Raw Pb > 0\<close>, and \<^verbatim>\<open>get_cell\<close> turns the NaN of
  an empty cell into 0.0. The code misses this on a lead-grade cell holding the text
  \<^verbatim>\<open>'NAN'\<close>: the cell is not null and \<^verbatim>\<open>float()\<close> reads it as NaN, so \<^verbatim>\<open>get_cell\<close>
  returns NaN; the gate is written \<^verbatim>\<open>raw_pb <= 0\<close>, which is false of NaN as
  \<^verbatim>\<open>raw_pb > 0\<close> is; and the block of the first shift is sent, with NaN as its lead
  grade. On every other value the gate does what the claim says (\<open>presence_gate\<close>).
\<close>

theorem nan_lead_grade_emitted:
  "get_cell nan_grid 4 (col_start (hd SHIFTS)) = Inr NaN \<and> \<not> gt_zero NaN \<and>
   parse_file [] accepted path_short (Inr nan_grid) =
     [Log_processing path_short (ascii ''2025-08-19''),
      Log_uploading (name (hd SHIFTS)), Request nan_payload] \<and>
   shiftType nan_payload = name (hd SHIFTS)"
  by (simp add: get_cell_value parse_file_events [OF get_date_examples(3)] SHIFTS_def
      shift_events_def payload_of_def nan_grid_cells accepted_def nan_payload_def)

lemma SHIFTS_eq: "SHIFTS = [shift_jia, shift_yi, shift_bing]"
  by (simp add: SHIFTS_def shift_jia_def shift_yi_def shift_bing_def)

lemma presence_gate_example:
  "get_date_from_filename [] path_short = Inr (Some (ascii ''2025-08-19'')) \<and>
   shift_yi \<in> set SHIFTS \<and>
   get_cell example_grid 4 (col_start shift_yi) = Inr (Finite 3.75) \<and>
   gt_zero (Finite 3.75) \<and>
   (\<exists>p \<in> set (requests (parse_file [] accepted path_short (Inr example_grid))).
      shiftType p = name shift_yi) \<and>
   shift_jia \<in> set SHIFTS \<and>
   get_cell example_grid 4 (col_start shift_jia) = Inr (Finite 0) \<and>
   le_zero (Finite 0) \<and>
   \<not> (\<exists>p \<in> set (requests (parse_file [] accepted path_short (Inr example_grid))).
      shiftType p = name shift_jia) \<and>
   process_shift accepted example_grid (ascii ''2025-08-19'') shift_jia = Inr []"
proof -
  have yi: "shift_yi \<in> set SHIFTS" and jia: "shift_jia \<in> set SHIFTS"
    by (simp_all add: SHIFTS_eq)
  have cy: "get_cell example_grid 4 (col_start shift_yi) = Inr (Finite 3.75)"
    by (simp add: get_cell_value shift_yi_def example_lead_cells)
  have cj: "get_cell example_grid 4 (col_start shift_jia) = Inr (Finite 0)"
    by (simp add: get_cell_value shift_jia_def example_lead_cells)
  have n: "Finite 3.75 \<noteq> NaN" "Finite 0 \<noteq> NaN"
    by simp_all
  note y = presence_gate [OF get_date_examples(3) yi cy n(1), of accepted]
  note j = presence_gate [OF get_date_examples(3) jia cj n(2), of accepted]
  have gy: "gt_zero (Finite 3.75)" and gj: "le_zero (Finite 0)" "\<not> gt_zero (Finite 0)"
    by simp_all
  from y gy have 1: "\<exists>p \<in> set (requests (parse_file [] accepted path_short (Inr example_grid))).
      shiftType p = name shift_yi"
    by blast
  from j gj have 2: "\<not> (\<exists>p \<in> set (requests (parse_file [] accepted path_short (Inr example_grid))).
      shiftType p = name shift_jia)"
    "process_shift accepted example_grid (ascii ''2025-08-19'') shift_jia = Inr []"
    by blast+
  show ?thesis
    using get_date_examples(3) yi jia cy cj gy gj(1) 1 2 by blast
qed

text \<open>
  C5. \<^verbatim>\<open>get_cell\<close> is guarded as the claim says (\<open>get_cell_guarded\<close>); \<^verbatim>\<open>get_val\<close> is
  not. On a frame of four rows \<^verbatim>\<open>get_val(4, 1)\<close> raises \<^verbatim>\<open>IndexError\<close>, and on an
  empty cell it returns NaN; \<^verbatim>\<open>get_cell\<close> returns 0.0 on both.
\<close>

theorem get_val_unguarded:
  "get_val short_grid 4 1 = Inl IndexError \<and>
   get_cell short_grid 4 1 = Inr (Finite 0) \<and>
   get_val blank_grid 4 1 = Inr NaN \<and>
   get_cell blank_grid 4 1 = Inr (Finite 0)"
  by (simp add: get_val_def get_cell_def iloc_def position_def short_grid_def blank_grid_def
      nth_append)

text \<open>
  A lead-grade cell that \<^verbatim>\<open>float()\<close> does not read. When the cell is empty, holds
  something that \<^verbatim>\<open>float()\<close> rejects, or is missing from the frame, \<^verbatim>\<open>get_cell\<close>
  returns 0.0 for it, the loop body of the block ends at the presence gate with nothing
  printed and nothing sent, the output of \<^verbatim>\<open>parse_file\<close> is what the loop over the
  other shifts gives, and the block does what it does on any frame whose lead-grade cell
  reads as the number 0.
\<close>

lemma unreadable_lead_grade_skipped:
  assumes "get_date_from_filename nd filepath = Inr (Some date_str)"
    and "shift \<in> set SHIFTS"
    and "\<forall>x. iloc df 4 (col_start shift) \<noteq> Inr (Coercible x)"
  shows "get_cell df 4 (col_start shift) = Inr (Finite 0) \<and>
         process_shift post df date_str shift = Inr [] \<and>
         parse_file nd post filepath (Inr df) =
           Log_processing filepath date_str
             # fst (run_shifts post df date_str (removeAll shift SHIFTS)) \<and>
         (\<forall>df'. get_cell df' 4 (col_start shift) = Inr (Finite 0) \<longrightarrow>
            process_shift post df' date_str shift = process_shift post df date_str shift)"
proof -
  have v: "cell_value df 4 (col_start shift) = Finite 0"
  proof (cases "iloc df 4 (col_start shift)")
    case (Inl e)
    then show ?thesis by (simp add: cell_value_def)
  next
    case (Inr val)
    with assms(3) show ?thesis by (cases val) (simp_all add: cell_value_def)
  qed
  have ev: "shift_events post df date_str shift = []"
    by (simp add: shift_events_def v)
  have "concat (map (shift_events post df date_str) SHIFTS)
      = concat (map (shift_events post df date_str) (removeAll shift SHIFTS))"
    using assms(2) ev by (auto simp: SHIFTS_def)
  then have "parse_file nd post filepath (Inr df) =
           Log_processing filepath date_str
             # fst (run_shifts post df date_str (removeAll shift SHIFTS))"
    by (simp add: parse_file_events [OF assms(1)] run_shifts_events)
  moreover have "\<forall>df'. get_cell df' 4 (col_start shift) = Inr (Finite 0) \<longrightarrow>
            process_shift post df' date_str shift = process_shift post df date_str shift"
    by (simp add: process_shift_events shift_events_def get_cell_value v)
  ultimately show ?thesis
    by (simp add: get_cell_value v process_shift_events ev)
qed

lemma unreadable_lead_grade_skipped_example:
  "get_date_from_filename [] path_short = Inr (Some (ascii ''2025-08-19'')) \<and>
   shift_bing \<in> set SHIFTS \<and>
   iloc example_grid 4 (col_start shift_bing) = Inr Blank \<and>
   get_cell example_grid 4 (col_start shift_bing) = Inr (Finite 0) \<and>
   process_shift accepted example_grid (ascii ''2025-08-19'') shift_bing = Inr [] \<and>
   parse_file [] accepted path_short (Inr example_grid) =
     Log_processing path_short (ascii ''2025-08-19'')
       # fst (run_shifts accepted example_grid (ascii ''2025-08-19'')
               (removeAll shift_bing SHIFTS)) \<and>
   parse_file [] accepted path_short (Inr example_grid) =
     [Log_processing path_short (ascii ''2025-08-19''),
      Log_uploading (name shift_yi), Request example_payload]"
proof -
  have b: "shift_bing \<in> set SHIFTS"
    by (simp add: SHIFTS_eq)
  have i: "iloc example_grid 4 (col_start shift_bing) = Inr Blank"
    by (simp add: iloc_def position_def example_grid_rows shift_bing_def)
  then have u: "\<forall>x. iloc example_grid 4 (col_start shift_bing) \<noteq> Inr (Coercible x)"
    by simp
  have n: "name shift_yi = [0x4E59, 0x73ED]"
    by (simp add: shift_yi_def)
  note unreadable_lead_grade_skipped [OF get_date_examples(3) b u, of accepted]
  then show ?thesis
    using get_date_examples(3) b i parse_file_example n by simp
qed

lemma text_grid_row:
  "length text_grid = 5"
  "text_grid ! 4 = [label, Blank, Blank, label, Blank,
              Coercible NaN, num 161, label, num 8, Coercible PosInf]"
  by (simp_all add: text_grid_def nth_append)

lemma text_grid_cells:
  "cell_value text_grid 4 1 = Finite 0"
  "cell_value text_grid 4 5 = NaN"
  "cell_value text_grid 4 6 = Finite 161"
  "cell_value text_grid 4 8 = Finite 8"
  "cell_value text_grid 4 9 = PosInf"
  "cell_value text_grid 4 10 = Finite 0"
  "cell_value text_grid 4 12 = Finite 0"
  "cell_value text_grid 5 c = Finite 0"
  "cell_value text_grid 6 c = Finite 0"
  "cell_value text_grid 7 c = Finite 0"
  by (simp_all add: cell_value_def iloc_def position_def text_grid_row num_def)

text \<open>
  C10. A lead-grade cell that is empty or holds no number is to be coerced to 0.0 by
  \<^verbatim>\<open>get_cell\<close>, so that its block is skipped with nothing printed and nothing sent.
  The code does so for an empty cell and for text that \<^verbatim>\<open>float()\<close> rejects
  (\<open>unreadable_lead_grade_skipped\<close>), and misses it on text that \<^verbatim>\<open>float()\<close> accepts
  although it is no number: for \<^verbatim>\<open>'NAN'\<close> in the cell of the second shift \<^verbatim>\<open>get_cell\<close>
  returns NaN, for \<^verbatim>\<open>'inf'\<close> in the cell of the third shift it returns infinity, neither
  is \<^verbatim>\<open><= 0\<close>, and both blocks are announced and sent, with NaN and infinity as their
  lead grades.
\<close>

theorem text_lead_grade_not_coerced:
  "iloc text_grid 4 (col_start shift_yi) = Inr (Coercible NaN) \<and>
   get_cell text_grid 4 (col_start shift_yi) = Inr NaN \<and>
   process_shift accepted text_grid (ascii ''2025-08-19'') shift_yi
     = Inr [Log_uploading (name shift_yi), Request text_payload_yi] \<and>
   pbGrade (rawOre text_payload_yi) = NaN \<and>
   iloc text_grid 4 (col_start shift_bing) = Inr (Coercible PosInf) \<and>
   get_cell text_grid 4 (col_start shift_bing) = Inr PosInf \<and>
   process_shift accepted text_grid (ascii ''2025-08-19'') shift_bing
     = Inr [Log_uploading (name shift_bing), Request text_payload_bing] \<and>
   pbGrade (rawOre text_payload_bing) = PosInf \<and>
   parse_file [] accepted path_short (Inr text_grid) =
     [Log_processing path_short (ascii ''2025-08-19''),
      Log_uploading (name shift_yi), Request text_payload_yi,
      Log_uploading (name shift_bing), Request text_payload_bing]"
proof -
  have i: "iloc text_grid 4 (col_start shift_yi) = Inr (Coercible NaN)"
    "iloc text_grid 4 (col_start shift_bing) = Inr (Coercible PosInf)"
    by (simp_all add: iloc_def position_def text_grid_row shift_yi_def shift_bing_def)
  have g: "get_cell text_grid 4 (col_start shift_yi) = Inr NaN"
    "get_cell text_grid 4 (col_start shift_bing) = Inr PosInf"
    by (simp_all add: get_cell_value text_grid_cells shift_yi_def shift_bing_def)
  have e: "shift_events accepted text_grid (ascii ''2025-08-19'') shift_jia = []"
    "shift_events accepted text_grid (ascii ''2025-08-19'') shift_yi
       = [Log_uploading (name shift_yi), Request text_payload_yi]"
    "shift_events accepted text_grid (ascii ''2025-08-19'') shift_bing
       = [Log_uploading (name shift_bing), Request text_payload_bing]"
    by (simp_all add: shift_events_def payload_of_def text_grid_cells accepted_def
        shift_jia_def shift_yi_def shift_bing_def text_payload_yi_def text_payload_bing_def)
  have p: "parse_file [] accepted path_short (Inr text_grid) =
     [Log_processing path_short (ascii ''2025-08-19''),
      Log_uploading (name shift_yi), Request text_payload_yi,
      Log_uploading (name shift_bing), Request text_payload_bing]"
    by (simp add: parse_file_events [OF get_date_examples(3)] SHIFTS_eq e)
  have q: "pbGrade (rawOre text_payload_yi) = NaN" "pbGrade (rawOre text_payload_bing) = PosInf"
    by (simp_all add: text_payload_yi_def text_payload_bing_def)
  show ?thesis
    using i g p q by (simp add: process_shift_events e)
qed

end
